theory Spec2Isabelle
  imports Main
begin

section \<open>Python values used by server.py\<close>

text \<open>
  A Python \<^verbatim>\<open>str\<close> is modelled as a \<^typ>\<open>string\<close>: one \<^typ>\<open>char\<close> per code point,
  for texts whose code points are all below 256.  The character classes below are the
  ones Python uses on that range (\<^verbatim>\<open>str.isspace\<close>, the regular expression classes
  \<^verbatim>\<open>\s\<close> and \<^verbatim>\<open>\d\<close>, \<^verbatim>\<open>str.lower\<close>).
\<close>

datatype message =
    Cannot_extract_time string
  | Does_not_match string
  | Unconverted_remains string
  | Empty_separator

datatype error =
    ValueError message
  | IndexError
  | OverflowError
  | OtherError string

definition isspace :: "char \<Rightarrow> bool" where
  "isspace c =
     (let n = (of_char c :: nat)
      in (9 \<le> n \<and> n \<le> 13) \<or> (28 \<le> n \<and> n \<le> 32) \<or> n = 133 \<or> n = 160)"

definition isdigit :: "char \<Rightarrow> bool" where
  "isdigit c = (let n = (of_char c :: nat) in 48 \<le> n \<and> n \<le> 57)"

definition lower_char :: "char \<Rightarrow> char" where
  "lower_char c =
     (let n = (of_char c :: nat)
      in if (65 \<le> n \<and> n \<le> 90) \<or> (192 \<le> n \<and> n \<le> 222 \<and> n \<noteq> 215)
         then char_of (n + 32) else c)"

definition lower :: "string \<Rightarrow> string" where
  "lower s = map lower_char s"

definition strip :: "string \<Rightarrow> string" where
  "strip s = rev (dropWhile isspace (rev (dropWhile isspace s)))"

text \<open>
  \<^verbatim>\<open>s.split(sep)\<close>: the text is scanned from the left, every occurrence of the
  separator closes the current segment, and occurrences do not overlap.  An empty
  separator raises \<^verbatim>\<open>ValueError\<close>.
\<close>

fun split_from :: "string \<Rightarrow> string \<Rightarrow> string \<Rightarrow> string list" where
  "split_from sep cur [] = [cur]"
| "split_from sep cur (c # cs) =
     (if sep \<noteq> [] \<and> take (length sep) (c # cs) = sep
      then cur # split_from sep [] (drop (length sep) (c # cs))
      else split_from sep (cur @ [c]) cs)"

definition str_split :: "string \<Rightarrow> string \<Rightarrow> error + string list" where
  "str_split s sep =
     (if sep = [] then Inl (ValueError Empty_separator) else Inr (split_from sep [] s))"

text \<open>\<^verbatim>\<open>sep.join(xs)\<close>.\<close>

fun join :: "string \<Rightarrow> string list \<Rightarrow> string" where
  "join sep [] = []"
| "join sep [x] = x"
| "join sep (x # y # ys) = x @ sep @ join sep (y # ys)"

text \<open>
  \<^verbatim>\<open>xs[i]\<close> with Python's negative indices and its \<^verbatim>\<open>IndexError\<close>, and the slice
  \<^verbatim>\<open>xs[:i]\<close>, which never raises.
\<close>

definition getitem :: "'a list \<Rightarrow> int \<Rightarrow> error + 'a" where
  "getitem xs i =
     (if 0 \<le> i \<and> i < int (length xs) then Inr (xs ! nat i)
      else if i < 0 \<and> - int (length xs) \<le> i then Inr (xs ! nat (int (length xs) + i))
      else Inl IndexError)"

definition slice_to :: "'a list \<Rightarrow> int \<Rightarrow> 'a list" where
  "slice_to xs i =
     (let n = int (length xs); j = (if i < 0 then max 0 (n + i) else min i n)
      in take (nat j) xs)"

section \<open>parse_title\<close>

text \<open>
  \<^verbatim>\<open>
  parts = [p.strip() for p in title.split(" - ")]
  status = parts[-1]
  if len(parts) > 2:
      room_name = parts[-2]
      time_str = " - ".join(parts[:-2])
  else:
      room_name = "Unknown"
      time_str = parts[0]
  return time_str, status, room_name
  \<close>
\<close>

definition parse_title :: "string \<Rightarrow> error + (string \<times> string \<times> string)" where
  "parse_title title =
     (case str_split title '' - '' of
        Inl e \<Rightarrow> Inl e
      | Inr segs \<Rightarrow>
          (let parts = map strip segs in
           case getitem parts (- 1) of
             Inl e \<Rightarrow> Inl e
           | Inr status \<Rightarrow>
               if length parts > 2
               then (case getitem parts (- 2) of
                       Inl e \<Rightarrow> Inl e
                     | Inr room_name \<Rightarrow>
                         Inr (join '' - '' (slice_to parts (- 2)), status, room_name))
               else (case getitem parts 0 of
                       Inl e \<Rightarrow> Inl e
                     | Inr time_str \<Rightarrow> Inr (time_str, status, ''Unknown''))))"

section \<open>datetime\<close>

text \<open>
  A naive \<^verbatim>\<open>datetime.datetime\<close>.  The calendar date is kept as its proleptic Gregorian
  ordinal (\<^verbatim>\<open>date.toordinal()\<close>: 0001-01-01 is day 1, 9999-12-31 is day 3652059), which
  is how the library itself does date arithmetic; consecutive calendar days have
  consecutive ordinals.
\<close>

record datetime =
  ordinal :: nat
  hour :: nat
  minute :: nat
  second :: nat
  microsecond :: nat

record timedelta =
  days :: nat
  seconds :: nat

definition MAXORDINAL :: nat where
  "MAXORDINAL = 3652059"

text \<open>\<^verbatim>\<open>timedelta(hours=h)\<close> and \<^verbatim>\<open>timedelta(days=d)\<close>, normalised as the constructor does.\<close>

definition timedelta_hours :: "nat \<Rightarrow> timedelta" where
  "timedelta_hours h = \<lparr>days = h div 24, seconds = (h mod 24) * 3600\<rparr>"

definition timedelta_days :: "nat \<Rightarrow> timedelta" where
  "timedelta_days d = \<lparr>days = d, seconds = 0\<rparr>"

text \<open>
  \<^verbatim>\<open>datetime + timedelta\<close>: the sum is normalised and \<^verbatim>\<open>OverflowError\<close> is raised when the
  resulting day is outside \<^verbatim>\<open>1 .. MAXORDINAL\<close>.
\<close>

definition dt_add :: "datetime \<Rightarrow> timedelta \<Rightarrow> error + datetime" where
  "dt_add d td =
     (let s = hour d * 3600 + minute d * 60 + second d + seconds td;
          dys = ordinal d + days td + s div 86400;
          r = s mod 86400
      in if 0 < dys \<and> dys \<le> MAXORDINAL
         then Inr \<lparr>ordinal = dys, hour = r div 3600, minute = (r mod 3600) div 60,
                   second = r mod 60, microsecond = microsecond d\<rparr>
         else Inl OverflowError)"

text \<open>\<^verbatim>\<open>a < b\<close> and \<^verbatim>\<open>a <= b\<close> on datetimes: lexicographic on the fields.\<close>

definition dt_lt :: "datetime \<Rightarrow> datetime \<Rightarrow> bool" where
  "dt_lt a b =
     (ordinal a < ordinal b \<or> (ordinal a = ordinal b \<and>
       (hour a < hour b \<or> (hour a = hour b \<and>
         (minute a < minute b \<or> (minute a = minute b \<and>
           (second a < second b \<or> (second a = second b \<and>
             microsecond a < microsecond b))))))))"

definition dt_le :: "datetime \<Rightarrow> datetime \<Rightarrow> bool" where
  "dt_le a b = (dt_lt a b \<or> a = b)"

section \<open>The regular expression of parse_time_range\<close>

text \<open>
  \<^verbatim>\<open>re.findall(r"\d{1,2}:\d{2}\s*(?:am|pm)", s)\<close>.  \<open>match_tail\<close> matches
  \<^verbatim>\<open>:\d{2}\s*(?:am|pm)\<close> at the start of a text and \<open>match_time\<close> the whole
  pattern; both return the number of characters matched.  \<^verbatim>\<open>\d{1,2}\<close> is greedy: two
  digits are tried before one.  \<open>findall\<close> scans from the left and resumes after each
  match (a match has at least one character, so \<open>drop (n - 1) cs\<close> is the text after it).
\<close>

definition match_tail :: "string \<Rightarrow> nat option" where
  "match_tail s =
     (case s of
        c # m1 # m2 # r \<Rightarrow>
          if c = CHR '':'' \<and> isdigit m1 \<and> isdigit m2
          then (let w = length (takeWhile isspace r); ap = take 2 (drop w r)
                in if ap = ''am'' \<or> ap = ''pm'' then Some (3 + w + 2) else None)
          else None
      | _ \<Rightarrow> None)"

definition match_time :: "string \<Rightarrow> nat option" where
  "match_time s =
     (case (case s of
              d1 # d2 # r \<Rightarrow>
                if isdigit d1 \<and> isdigit d2 then map_option (\<lambda>n. 2 + n) (match_tail r) else None
            | _ \<Rightarrow> None) of
        Some n \<Rightarrow> Some n
      | None \<Rightarrow>
          (case s of
             d1 # r \<Rightarrow> if isdigit d1 then map_option (\<lambda>n. 1 + n) (match_tail r) else None
           | [] \<Rightarrow> None))"

fun findall :: "string \<Rightarrow> string list" where
  "findall [] = []"
| "findall (c # cs) =
     (case match_time (c # cs) of
        Some n \<Rightarrow> take n (c # cs) # findall (drop (n - 1) cs)
      | None \<Rightarrow> findall cs)"

section \<open>strptime with the format %I:%M%p\<close>

text \<open>
  \<^verbatim>\<open>datetime.strptime(t, "%I:%M%p")\<close> compiles the format to the regular expression
  \<^verbatim>\<open>(?P<I>1[0-2]|0[1-9]|[1-9]):(?P<M>[0-5]\d|\d)(?P<p>am|pm)\<close> (case-insensitive, English
  AM/PM names), matches it at the start of the text and rejects text left over.  Each
  of \<open>re_I\<close>, \<open>re_M\<close>, \<open>re_p\<close> lists the lengths its group can match, in the order
  the alternatives are tried, and \<open>format_matches\<close> lists the ways the whole
  expression matches, the one the matcher finds first.  The result is the hour (24-hour clock) and the minute of
  the parsed time; its second and microsecond are 0.
\<close>

definition in_range :: "char \<Rightarrow> char \<Rightarrow> char \<Rightarrow> bool" where
  "in_range a b c = ((of_char a :: nat) \<le> of_char c \<and> (of_char c :: nat) \<le> of_char b)"

definition re_I :: "string \<Rightarrow> nat list" where
  "re_I s =
     (case s of
        c1 # c2 # _ \<Rightarrow>
          (if c1 = CHR ''1'' \<and> in_range CHR ''0'' CHR ''2'' c2 then [2] else []) @
          (if c1 = CHR ''0'' \<and> in_range CHR ''1'' CHR ''9'' c2 then [2] else [])
      | _ \<Rightarrow> []) @
     (case s of c1 # _ \<Rightarrow> if in_range CHR ''1'' CHR ''9'' c1 then [1] else [] | [] \<Rightarrow> [])"

definition re_M :: "string \<Rightarrow> nat list" where
  "re_M s =
     (case s of
        c1 # c2 # _ \<Rightarrow> if in_range CHR ''0'' CHR ''5'' c1 \<and> isdigit c2 then [2] else []
      | _ \<Rightarrow> []) @
     (case s of c1 # _ \<Rightarrow> if isdigit c1 then [1] else [] | [] \<Rightarrow> [])"

definition re_p :: "string \<Rightarrow> nat list" where
  "re_p s = (if lower (take 2 s) = ''am'' \<or> lower (take 2 s) = ''pm'' then [2] else [])"

definition int_of_digits :: "string \<Rightarrow> nat" where
  "int_of_digits s = foldl (\<lambda>a c. 10 * a + (of_char c - 48)) 0 s"

definition format_matches :: "string \<Rightarrow> (nat \<times> nat \<times> nat) list" where
  "format_matches s =
     [(i, m, p). i \<leftarrow> re_I s, take 1 (drop i s) = '':'',
                 m \<leftarrow> re_M (drop (i + 1) s), p \<leftarrow> re_p (drop (i + 1 + m) s)]"

definition strptime_IMp :: "string \<Rightarrow> error + (nat \<times> nat)" where
  "strptime_IMp s =
     (case format_matches s of
        [] \<Rightarrow> Inl (ValueError (Does_not_match s))
      | (i, m, p) # _ \<Rightarrow>
          if i + 1 + m + p \<noteq> length s
          then Inl (ValueError (Unconverted_remains (drop (i + 1 + m + p) s)))
          else (let h = int_of_digits (take i s);
                    mi = int_of_digits (take m (drop (i + 1) s));
                    ampm = lower (take p (drop (i + 1 + m) s))
                in Inr (if ampm = ''am'' then (if h = 12 then 0 else h)
                        else (if h \<noteq> 12 then h + 12 else h), mi)))"

section \<open>parse_time_range\<close>

text \<open>
  \<^verbatim>\<open>
  def to_dt(t):
      return datetime.datetime.strptime(t.strip(), "%I:%M%p") \
          .replace(year=today.year, month=today.month, day=today.day)
  \<close>
  \<open>today\<close> is the ordinal of \<^verbatim>\<open>datetime.datetime.now().date()\<close>.
\<close>

definition to_dt :: "nat \<Rightarrow> string \<Rightarrow> error + datetime" where
  "to_dt today t =
     (case strptime_IMp (strip t) of
        Inl e \<Rightarrow> Inl e
      | Inr (h, m) \<Rightarrow>
          Inr \<lparr>ordinal = today, hour = h, minute = m, second = 0, microsecond = 0\<rparr>)"

text \<open>
  The first argument is the value \<^verbatim>\<open>datetime.datetime.now()\<close> returns inside the call.
  \<^verbatim>\<open>
  full_times = re.findall(r"\d{1,2}:\d{2}\s*(?:am|pm)", time_str.lower())
  today = datetime.datetime.now().date()
  if len(full_times) == 1:
      start_dt = to_dt(full_times[0])
      end_dt = start_dt + datetime.timedelta(hours=1)
      return start_dt, end_dt
  if len(full_times) >= 2:
      start_dt = to_dt(full_times[0])
      end_dt = to_dt(full_times[1])
      if end_dt <= start_dt:
          end_dt += datetime.timedelta(days=1)
      return start_dt, end_dt
  raise ValueError(f"...: {time_str}")
  \<close>
\<close>

definition parse_time_range :: "datetime \<Rightarrow> string \<Rightarrow> error + (datetime \<times> datetime)" where
  "parse_time_range now time_str =
     (let full_times = findall (lower time_str);
          today = ordinal now
      in if length full_times = 1
         then (case to_dt today (full_times ! 0) of
                 Inl e \<Rightarrow> Inl e
               | Inr start_dt \<Rightarrow>
                   (case dt_add start_dt (timedelta_hours 1) of
                      Inl e \<Rightarrow> Inl e
                    | Inr end_dt \<Rightarrow> Inr (start_dt, end_dt)))
         else if length full_times \<ge> 2
         then (case to_dt today (full_times ! 0) of
                 Inl e \<Rightarrow> Inl e
               | Inr start_dt \<Rightarrow>
                   (case to_dt today (full_times ! 1) of
                      Inl e \<Rightarrow> Inl e
                    | Inr end_dt \<Rightarrow>
                        if dt_le end_dt start_dt
                        then (case dt_add end_dt (timedelta_days 1) of
                                Inl e \<Rightarrow> Inl e
                              | Inr end_dt' \<Rightarrow> Inr (start_dt, end_dt'))
                        else Inr (start_dt, end_dt)))
         else Inl (ValueError (Cannot_extract_time time_str)))"

section \<open>The rendered page and fetch_single_eid\<close>

text \<open>
  Of the page only what the selectors of \<^verbatim>\<open>fetch_single_eid\<close> read is kept:
  \<open>timeline_lane page eid\<close> is the cell
  \<^verbatim>\<open>td.fc-timeline-lane.fc-resource[data-resource-id="eid"]\<close>, \<open>None\<close> when
  \<^verbatim>\<open>query_selector\<close> finds nothing, given by what \<^verbatim>\<open>get_attribute("title")\<close> returns for
  each of its \<^verbatim>\<open>.fc-timeline-event-harness a[title]\<close> nodes in document order;
  \<open>datagrid_name page eid\<close> is the inner text of the name cell, \<open>None\<close> when that
  element is absent.  An entry of the result is the dictionary the source appends, as
  an association list in the order of its keys.
\<close>

record page =
  timeline_lane :: "string \<Rightarrow> string option list option"
  datagrid_name :: "string \<Rightarrow> string option"

type_synonym event = "(string \<times> string) list"

text \<open>
  The loop over the event nodes.  \<open>now\<close> is the clock value read once before the
  loop; \<open>clock i\<close> is the value \<^verbatim>\<open>datetime.datetime.now()\<close> returns while node \<open>i\<close> is
  processed (the read inside \<^verbatim>\<open>parse_time_range\<close>).
  \<^verbatim>\<open>
  for e in events:
      title = await e.get_attribute("title")
      if not title:
          continue
      time_str, status_str, _ = parse_title(title)
      start_time, _ = parse_time_range(time_str)
      if start_time < now:
          continue
      results.append({"eid": eid, "Name": room_name_text,
                      "time": time_str, "status": status_str})
  return results
  \<close>
\<close>

fun fetch_events ::
  "string \<Rightarrow> string \<Rightarrow> datetime \<Rightarrow> (nat \<Rightarrow> datetime) \<Rightarrow> nat \<Rightarrow> event list \<Rightarrow>
   string option list \<Rightarrow> error + event list" where
  "fetch_events eid room_name_text now clock i results [] = Inr results"
| "fetch_events eid room_name_text now clock i results (e # es) =
     (case e of
        None \<Rightarrow> fetch_events eid room_name_text now clock (Suc i) results es
      | Some title \<Rightarrow>
          if title = [] then fetch_events eid room_name_text now clock (Suc i) results es
          else
            (case parse_title title of
               Inl err \<Rightarrow> Inl err
             | Inr (time_str, status_str, _) \<Rightarrow>
                 (case parse_time_range (clock i) time_str of
                    Inl err \<Rightarrow> Inl err
                  | Inr (start_time, _) \<Rightarrow>
                      if dt_lt start_time now
                      then fetch_events eid room_name_text now clock (Suc i) results es
                      else fetch_events eid room_name_text now clock (Suc i)
                             (results @ [[(''eid'', eid), (''Name'', room_name_text),
                                          (''time'', time_str), (''status'', status_str)]])
                             es)))"

text \<open>
  \<^verbatim>\<open>
  td = await page.query_selector(selector)
  if not td:
      return []
  name_elem = await page.query_selector(name_selector)
  room_name_text = await name_elem.inner_text() if name_elem else "Unknown"
  events = await td.query_selector_all(".fc-timeline-event-harness a[title]")
  results = []
  now = datetime.datetime.now()
  \<close>
\<close>

definition fetch_single_eid ::
  "page \<Rightarrow> string \<Rightarrow> datetime \<Rightarrow> (nat \<Rightarrow> datetime) \<Rightarrow> error + event list" where
  "fetch_single_eid page eid now clock =
     (case timeline_lane page eid of
        None \<Rightarrow> Inr []
      | Some events \<Rightarrow>
          (let room_name_text = (case datagrid_name page eid of Some t \<Rightarrow> t | None \<Rightarrow> ''Unknown'')
           in fetch_events eid room_name_text now clock 0 [] events))"

section \<open>fetch_all, save_json and the route /api/run_fetch\<close>

text \<open>
  What the batch reads from outside: the lines of the identifier file (\<open>None\<close> when it
  cannot be opened), the page after launch, navigation and the wait (\<open>None\<close> when the
  browser raises), the clock (\<open>scrape_clock j\<close> is read by the \<open>j\<close>-th call of
  \<^verbatim>\<open>fetch_single_eid\<close> before its loop, \<open>parse_clock j i\<close> inside that call for node
  \<open>i\<close>), and how far the writing of \<^verbatim>\<open>record.json\<close> gets.  The page is one snapshot
  for the whole batch.
\<close>

datatype write_outcome = Open_fails | Dump_fails nat | Print_fails | Completes

record env =
  eid_file :: "string list option"
  loaded_page :: "page option"
  scrape_clock :: "nat \<Rightarrow> datetime"
  parse_clock :: "nat \<Rightarrow> nat \<Rightarrow> datetime"
  save_outcome :: write_outcome

text \<open>
  \<^verbatim>\<open>
  for eid in eids:
      data = await fetch_single_eid(page, eid)
      all_results.extend(data)
  return all_results
  \<close>
\<close>

fun fetch_eids :: "env \<Rightarrow> page \<Rightarrow> nat \<Rightarrow> event list \<Rightarrow> string list \<Rightarrow> error + event list" where
  "fetch_eids ev pg j all_results [] = Inr all_results"
| "fetch_eids ev pg j all_results (eid # eids) =
     (case fetch_single_eid pg eid (scrape_clock ev j) (parse_clock ev j) of
        Inl err \<Rightarrow> Inl err
      | Inr data \<Rightarrow> fetch_eids ev pg (Suc j) (all_results @ data) eids)"

text \<open>
  \<^verbatim>\<open>
  with open("codeList4Shapiro2ndFloor.txt", "r") as f:
      eids = [line.strip() for line in f if line.strip()]
  \<close>
\<close>

definition fetch_all :: "env \<Rightarrow> error + event list" where
  "fetch_all ev =
     (case eid_file ev of
        None \<Rightarrow> Inl (OtherError ''open'')
      | Some lines \<Rightarrow>
          (let eids = [strip line. line \<leftarrow> lines, strip line \<noteq> []]
           in case loaded_page ev of
                None \<Rightarrow> Inl (OtherError ''playwright'')
              | Some pg \<Rightarrow> fetch_eids ev pg 0 [] eids))"

text \<open>
  \<^verbatim>\<open>
  def save_json(data, filename):
      with open(filename, "w", encoding="utf-8") as f:
          json.dump(data, f, indent=4, ensure_ascii=False)
      print(...)
  \<close>
  on the state of \<^verbatim>\<open>record.json\<close> (\<open>None\<close>: no such file yet).  The file holds the
  document of a list of entries (\<open>Document\<close>), or what is left when a write of it was
  cut short (\<open>Damaged data k\<close>: the file was emptied and only \<open>k\<close> characters of the
  document of \<open>data\<close> reached it).  \<^verbatim>\<open>open(filename, "w")\<close> raises and leaves the file as it
  was, or empties it; then \<^verbatim>\<open>json.dump\<close> writes the document and can raise on the way;
  then the \<^verbatim>\<open>print\<close> can raise, with the whole document in the file.  The result is
  what the call returns or raises and the state of the file afterwards.
\<close>

datatype json_file = Document "event list" | Damaged "event list" nat

definition save_json :: "env \<Rightarrow> json_file option \<Rightarrow> event list \<Rightarrow> (error + unit) \<times> json_file option" where
  "save_json ev fl data =
     (case save_outcome ev of
        Open_fails \<Rightarrow> (Inl (OtherError ''open''), fl)
      | Dump_fails k \<Rightarrow> (Inl (OtherError ''dump''), Some (Damaged data k))
      | Print_fails \<Rightarrow> (Inl (OtherError ''print''), Some (Document data))
      | Completes \<Rightarrow> (Inr (), Some (Document data)))"

datatype jvalue = JStr string | JInt nat | JMessage error

record response =
  http_status :: nat
  body :: "(string \<times> jvalue) list"

text \<open>\<^verbatim>\<open>jsonify(d)\<close>: the document \<open>d\<close> with the default status 200.\<close>

definition jsonify :: "(string \<times> jvalue) list \<Rightarrow> response" where
  "jsonify d = \<lparr>http_status = 200, body = d\<rparr>"

text \<open>
  \<^verbatim>\<open>
  try:
      data = asyncio.run(fetch_all())
      save_json(data, os.path.join(STATIC_DIR, "record.json"))
      return jsonify({"status": "success", "count": len(data)})
  except Exception as e:
      return jsonify({"status": "error", "message": str(e)})
  \<close>
  The result is the response and the state of \<^verbatim>\<open>record.json\<close> afterwards;
  \<open>JMessage e\<close> stands for the text \<^verbatim>\<open>str(e)\<close>.
\<close>

definition run_fetch :: "env \<Rightarrow> json_file option \<Rightarrow> response \<times> json_file option" where
  "run_fetch ev fl =
     (case fetch_all ev of
        Inl e \<Rightarrow> (jsonify [(''status'', JStr ''error''), (''message'', JMessage e)], fl)
      | Inr data \<Rightarrow>
          (case save_json ev fl data of
             (Inl e, fl') \<Rightarrow>
               (jsonify [(''status'', JStr ''error''), (''message'', JMessage e)], fl')
           | (Inr u, fl') \<Rightarrow>
               (jsonify [(''status'', JStr ''success''), (''count'', JInt (length data))], fl')))"

section \<open>Notions used to state the properties\<close>

text \<open>
  \<open>clock12 t\<close>: the text \<open>t\<close> is a 12-hour clock time as \<^verbatim>\<open>%I:%M%p\<close> reads it, in
  lower case: an hour from 1 to 12 (one digit, or two with a leading zero allowed), a
  colon, a minute from 00 to 59, and \<^verbatim>\<open>am\<close> or \<^verbatim>\<open>pm\<close> directly after it.
\<close>

definition clock12 :: "string \<Rightarrow> bool" where
  "clock12 t =
     (case t of
        [h, c, m1, m2, a, b] \<Rightarrow>
          in_range CHR ''1'' CHR ''9'' h \<and> c = CHR '':'' \<and>
          in_range CHR ''0'' CHR ''5'' m1 \<and> isdigit m2 \<and>
          (a = CHR ''a'' \<or> a = CHR ''p'') \<and> b = CHR ''m''
      | [h1, h2, c, m1, m2, a, b] \<Rightarrow>
          ((h1 = CHR ''1'' \<and> in_range CHR ''0'' CHR ''2'' h2) \<or>
           (h1 = CHR ''0'' \<and> in_range CHR ''1'' CHR ''9'' h2)) \<and> c = CHR '':'' \<and>
          in_range CHR ''0'' CHR ''5'' m1 \<and> isdigit m2 \<and>
          (a = CHR ''a'' \<or> a = CHR ''p'') \<and> b = CHR ''m''
      | _ \<Rightarrow> False)"

text \<open>
  The seconds from the start of day 0 to a datetime, and the ranges of the clock fields
  of a datetime.  The difference of two \<open>epoch_seconds\<close> is the length of the
  \<^verbatim>\<open>timedelta\<close> between two datetimes with equal microseconds.
\<close>

definition epoch_seconds :: "datetime \<Rightarrow> nat" where
  "epoch_seconds d = ordinal d * 86400 + hour d * 3600 + minute d * 60 + second d"

definition time_ok :: "datetime \<Rightarrow> bool" where
  "time_ok d = (hour d < 24 \<and> minute d < 60 \<and> second d < 60)"

text \<open>
  What a title resolves to at clock value \<open>clk\<close>: its time label, its status and the
  start of its time range; \<open>None\<close> when \<open>parse_title\<close> or \<open>parse_time_range\<close> raises.
\<close>

definition resolved :: "datetime \<Rightarrow> string \<Rightarrow> (string \<times> string \<times> datetime) option" where
  "resolved clk title =
     (case parse_title title of
        Inl _ \<Rightarrow> None
      | Inr (time_str, status_str, _) \<Rightarrow>
          (case parse_time_range clk time_str of
             Inl _ \<Rightarrow> None
           | Inr (start_time, _) \<Rightarrow> Some (time_str, status_str, start_time)))"

text \<open>
  The entries node number \<open>i\<close> adds to the result: none for a node without a title or
  with an empty one, none for a node whose start is before \<open>now\<close>, and otherwise the one
  entry with the four fields.
\<close>

definition kept_entry ::
  "string \<Rightarrow> string \<Rightarrow> datetime \<Rightarrow> (nat \<Rightarrow> datetime) \<Rightarrow> nat \<times> string option \<Rightarrow> event list" where
  "kept_entry eid room_name_text now clock p =
     (case snd p of
        None \<Rightarrow> []
      | Some title \<Rightarrow>
          if title = [] then []
          else (case resolved (clock (fst p)) title of
                  None \<Rightarrow> []
                | Some (time_str, status_str, start_time) \<Rightarrow>
                    if dt_lt start_time now then []
                    else [[(''eid'', eid), (''Name'', room_name_text),
                           (''time'', time_str), (''status'', status_str)]]))"

text \<open>
  The entries the \<open>j\<close>-th identifier of the batch contributes when its scrape returns:
  none when the page has no schedule cell for it, and otherwise what the nodes of its
  cell contribute, in document order, with the name cell's text (or \<^verbatim>\<open>"Unknown"\<close>) as
  name and the clock values of that scrape.
\<close>

definition resource_entries :: "env \<Rightarrow> page \<Rightarrow> nat \<times> string \<Rightarrow> event list" where
  "resource_entries ev pg p =
     (case timeline_lane pg (snd p) of
        None \<Rightarrow> []
      | Some nodes \<Rightarrow>
          concat (map (kept_entry (snd p)
                         (case datagrid_name pg (snd p) of Some t \<Rightarrow> t | None \<Rightarrow> ''Unknown'')
                         (scrape_clock ev (fst p)) (parse_clock ev (fst p)))
                      (enumerate 0 nodes)))"

text \<open>What the scrape of the \<open>j\<close>-th identifier returns; nothing when it raises.\<close>

definition scraped :: "env \<Rightarrow> page \<Rightarrow> nat \<times> string \<Rightarrow> event list" where
  "scraped ev pg p =
     (case fetch_single_eid pg (snd p) (scrape_clock ev (fst p)) (parse_clock ev (fst p)) of
        Inl err \<Rightarrow> []
      | Inr data \<Rightarrow> data)"

section \<open>Properties of parse_title\<close>

lemma split_from_nonempty: "split_from sep cur s \<noteq> []"
  by (induction sep cur s rule: split_from.induct) auto

text \<open>Joining the segments with the separator gives the text back.\<close>

lemma join_split_from: "sep \<noteq> [] \<Longrightarrow> join sep (split_from sep cur s) = cur @ s"
proof (induction sep cur s rule: split_from.induct)
  case (1 sep cur)
  then show ?case by simp
next
  case (2 sep cur c cs)
  show ?case
  proof (cases "take (length sep) (c # cs) = sep")
    case True
    obtain x xs where sp: "split_from sep [] (drop (length sep) (c # cs)) = x # xs"
      using split_from_nonempty by (cases "split_from sep [] (drop (length sep) (c # cs))") auto
    have "join sep (split_from sep [] (drop (length sep) (c # cs))) = drop (length sep) (c # cs)"
      using 2 True by simp
    then have "join sep (cur # x # xs) = cur @ sep @ drop (length sep) (c # cs)"
      using sp by simp
    moreover have "sep @ drop (length sep) (c # cs) = c # cs"
      using True by (metis append_take_drop_id)
    ultimately show ?thesis using True 2 sp by simp
  next
    case False
    then show ?thesis using 2 by simp
  qed
qed

lemma getitem_last: "xs \<noteq> [] \<Longrightarrow> getitem xs (- 1) = Inr (xs ! (length xs - 1))"
  by (cases xs) (auto simp: getitem_def Let_def nat_diff_distrib)

lemma getitem_last2: "2 \<le> length xs \<Longrightarrow> getitem xs (- 2) = Inr (xs ! (length xs - 2))"
  by (auto simp: getitem_def Let_def nat_diff_distrib)

lemma getitem_first: "xs \<noteq> [] \<Longrightarrow> getitem xs 0 = Inr (xs ! 0)"
  by (cases xs) (auto simp: getitem_def Let_def)

lemma slice_to_last2: "slice_to xs (- 2) = take (length xs - 2) xs"
  by (auto simp: slice_to_def Let_def max_def nat_diff_distrib)

lemma parse_title_Inr:
  assumes "segs = split_from '' - '' [] title"
  shows "parse_title title =
        Inr (if 2 < length segs then join '' - '' (map strip (take (length segs - 2) segs))
             else strip (segs ! 0),
             strip (segs ! (length segs - 1)),
             if 2 < length segs then strip (segs ! (length segs - 2)) else ''Unknown'')"
proof -
  have ne: "segs \<noteq> []" unfolding assms by (rule split_from_nonempty)
  have sp: "str_split title '' - '' = Inr segs" by (simp add: str_split_def assms)
  have ne': "map strip segs \<noteq> []" using ne by simp
  show ?thesis
    using ne
    by (simp add: parse_title_def sp Let_def getitem_last[OF ne'] getitem_first[OF ne']
        getitem_last2 slice_to_last2 take_map)
qed

text \<open>
  C4 (as the code has it).  The title is cut at every occurrence of the separator
  \<^verbatim>\<open>" - "\<close> (joining the segments with the separator gives the title back, and
  there is at least one segment).  Every segment is stripped of leading and trailing
  white space before it is used: the status is the stripped last segment; with more
  than two segments the room name is the stripped second-to-last segment and the time
  label is the stripped segments before it joined with \<^verbatim>\<open>" - "\<close>; with one or two
  segments the room name is \<^verbatim>\<open>"Unknown"\<close> and the time label is the stripped first
  segment.
\<close>

theorem parse_title_segments:
  "let segs = split_from '' - '' [] title; n = length segs
   in 1 \<le> n \<and> join '' - '' segs = title \<and>
      parse_title title =
        Inr (if 2 < n then join '' - '' (map strip (take (n - 2) segs)) else strip (segs ! 0),
             strip (segs ! (n - 1)),
             if 2 < n then strip (segs ! (n - 2)) else ''Unknown'')"
proof -
  define segs where "segs = split_from '' - '' [] title"
  have ne: "segs \<noteq> []" unfolding segs_def by (rule split_from_nonempty)
  have j: "join '' - '' segs = title" unfolding segs_def by (simp add: join_split_from)
  show ?thesis
    using ne j parse_title_Inr[OF segs_def] unfolding segs_def[symmetric] Let_def
    by (cases segs) auto
qed

theorem parse_title_segments_witness:
  "parse_title ''8:00am Wednesday, November 26, 2025 - 2nd Floor - 2122'' =
     Inr (''8:00am Wednesday, November 26, 2025'', ''2122'', ''2nd Floor'')"
  using parse_title_segments [of "''8:00am Wednesday, November 26, 2025 - 2nd Floor - 2122''"]
  by (simp add: Let_def strip_def isspace_def)

text \<open>
  The claim as it is written, with the room name equal to the second-to-last segment
  exactly, fails on a title whose segments carry white space of their own: the segment
  is \<^verbatim>\<open>" 2122 "\<close> and the room name returned is \<^verbatim>\<open>"2122"\<close>.
\<close>

theorem parse_title_exact_segment_counterexample:
  "split_from '' - '' [] ''1:00pm -  2122  - Available'' = [''1:00pm'', '' 2122 '', ''Available''] \<and>
   parse_title ''1:00pm -  2122  - Available'' = Inr (''1:00pm'', ''Available'', ''2122'') \<and>
   ''2122'' \<noteq> '' 2122 ''"
  by (simp add: parse_title_def str_split_def getitem_def slice_to_def Let_def strip_def
      isspace_def)

text \<open>
  C5.  \<open>parse_title\<close> returns a triple for every title: none of its index operations
  raises, whatever the text (the empty text included).
\<close>

theorem parse_title_total: "\<exists>time_str status room_name. parse_title title = Inr (time_str, status, room_name)"
  using parse_title_Inr [of "split_from '' - '' [] title" title] by simp

theorem parse_title_total_witness:
  "parse_title [] = Inr ([], [], ''Unknown'')"
  using parse_title_total [of "[]"]
  by (simp add: parse_title_def str_split_def getitem_def Let_def strip_def)

section \<open>Properties of parse_time_range\<close>

lemma re_I_range:
  "i \<in> set (re_I s) \<Longrightarrow> 1 \<le> int_of_digits (take i s) \<and> int_of_digits (take i s) \<le> 12"
  by (auto simp: re_I_def in_range_def int_of_digits_def split: list.splits if_splits)

lemma re_M_range:
  "m \<in> set (re_M s) \<Longrightarrow> int_of_digits (take m s) < 60"
  by (auto simp: re_M_def in_range_def isdigit_def Let_def int_of_digits_def split: list.splits if_splits)

lemma strptime_range:
  assumes "strptime_IMp s = Inr (h, m)"
  shows "h < 24 \<and> m < 60"
proof -
  from assms obtain i k p rest where L: "format_matches s = (i, k, p) # rest"
    by (cases "format_matches s") (auto simp: strptime_IMp_def)
  then have "(i, k, p) \<in> set (format_matches s)" by simp
  then have i: "i \<in> set (re_I s)" and k: "k \<in> set (re_M (drop (i + 1) s))"
    by (auto simp: format_matches_def split: if_splits)
  from assms L have h: "h = (if lower (take p (drop (i + 1 + k) s)) = ''am''
        then (if int_of_digits (take i s) = 12 then 0 else int_of_digits (take i s))
        else (if int_of_digits (take i s) \<noteq> 12 then int_of_digits (take i s) + 12 else int_of_digits (take i s)))"
     and m: "m = int_of_digits (take k (drop (i + 1) s))"
    by (auto simp: strptime_IMp_def Let_def split: if_splits)
  from re_I_range[OF i] have "h < 24" unfolding h by (auto split: if_splits)
  moreover from re_M_range[OF k] have "m < 60" unfolding m .
  ultimately show ?thesis by simp
qed

lemma re_M_two:
  assumes "in_range CHR ''0'' CHR ''5'' m1" "isdigit m2"
  shows "re_M (m1 # m2 # r) = [2, 1]"
  using assms by (simp add: re_M_def in_range_def isdigit_def Let_def)

lemma re_p_ampm:
  assumes "a = CHR ''a'' \<or> a = CHR ''p''"
  shows "re_p [a, CHR ''m''] = [2]"
  using assms by (auto simp: re_p_def lower_def lower_char_def)

lemma re_p_digit:
  assumes "isdigit m2"
  shows "re_p (m2 # r) = []"
  using assms by (cases r) (auto simp: re_p_def lower_def lower_char_def isdigit_def Let_def)

lemma re_I_one:
  assumes "in_range CHR ''1'' CHR ''9'' h"
  shows "re_I (h # CHR '':'' # r) = [1]"
  using assms by (auto simp: re_I_def in_range_def)

lemma re_I_two:
  assumes "(h1 = CHR ''1'' \<and> in_range CHR ''0'' CHR ''2'' h2) \<or>
           (h1 = CHR ''0'' \<and> in_range CHR ''1'' CHR ''9'' h2)"
  shows "\<exists>x. re_I (h1 # h2 # r) = 2 # x" "h2 \<noteq> CHR '':''"
  using assms by (auto simp: re_I_def in_range_def)

lemma format_matches_6:
  assumes "in_range CHR ''1'' CHR ''9'' h" "in_range CHR ''0'' CHR ''5'' m1" "isdigit m2"
    "a = CHR ''a'' \<or> a = CHR ''p''"
  shows "format_matches [h, CHR '':'', m1, m2, a, CHR ''m''] = [(1, 2, 2)]"
  by (simp add: format_matches_def re_I_one[OF assms(1)] re_M_two[OF assms(2,3)]
      re_p_ampm[OF assms(4)] re_p_digit[OF assms(3)])

lemma format_matches_7:
  assumes "(h1 = CHR ''1'' \<and> in_range CHR ''0'' CHR ''2'' h2) \<or>
           (h1 = CHR ''0'' \<and> in_range CHR ''1'' CHR ''9'' h2)"
     "in_range CHR ''0'' CHR ''5'' m1" "isdigit m2"
    "a = CHR ''a'' \<or> a = CHR ''p''"
  shows "\<exists>x. format_matches [h1, h2, CHR '':'', m1, m2, a, CHR ''m''] = (2, 2, 2) # x"
proof -
  from re_I_two[OF assms(1)] obtain x where x: "re_I [h1, h2, CHR '':'', m1, m2, a, CHR ''m''] = 2 # x"
    by blast
  show ?thesis
  by (simp add: format_matches_def x re_M_two[OF assms(2,3)]
      re_p_ampm[OF assms(4)] re_p_digit[OF assms(3)])
qed

lemma clock12_strptime:
  assumes "clock12 t"
  shows "\<exists>h m. strptime_IMp t = Inr (h, m)"
proof -
  from assms consider
    (six) h m1 m2 a where "t = [h, CHR '':'', m1, m2, a, CHR ''m'']"
      "in_range CHR ''1'' CHR ''9'' h" "in_range CHR ''0'' CHR ''5'' m1" "isdigit m2"
      "a = CHR ''a'' \<or> a = CHR ''p''"
  | (seven) h1 h2 m1 m2 a where "t = [h1, h2, CHR '':'', m1, m2, a, CHR ''m'']"
      "(h1 = CHR ''1'' \<and> in_range CHR ''0'' CHR ''2'' h2) \<or>
           (h1 = CHR ''0'' \<and> in_range CHR ''1'' CHR ''9'' h2)"
      "in_range CHR ''0'' CHR ''5'' m1" "isdigit m2"
      "a = CHR ''a'' \<or> a = CHR ''p''"
    unfolding clock12_def by (simp split: list.splits)
  then show ?thesis
  proof cases
    case six
    show ?thesis
      unfolding six(1) strptime_IMp_def format_matches_6[OF six(2-5)] by (simp add: Let_def)
  next
    case seven
    from format_matches_7[OF seven(2-5)] obtain x where
      "format_matches [h1, h2, CHR '':'', m1, m2, a, CHR ''m''] = (2, 2, 2) # x" by blast
    then show ?thesis
      unfolding seven(1) strptime_IMp_def by (simp add: Let_def)
  qed
qed

lemma strip_id:
  assumes "t \<noteq> []" "\<not> isspace (hd t)" "\<not> isspace (last t)"
  shows "strip t = t"
proof -
  have a: "dropWhile isspace t = t" using assms(1,2) by (cases t) auto
  have "dropWhile isspace (rev t) = rev t"
    using assms(1,3) by (cases "rev t") (auto simp: last_rev[symmetric] simp del: last_rev)
  then show ?thesis by (simp add: strip_def a)
qed

lemma clock12_strip: "clock12 t \<Longrightarrow> strip t = t"
  apply (rule strip_id)
  apply (auto simp: clock12_def in_range_def isspace_def Let_def split: list.splits)
  done

lemma radix_less:
  fixes a b x y n :: nat
  assumes "x < n" "y < n"
  shows "(a * n + x < b * n + y) = (a < b \<or> (a = b \<and> x < y))"
proof (cases a b rule: linorder_cases)
  case less
  then have "Suc a * n \<le> b * n" by (intro mult_le_mono1) simp
  then have "a * n + x < b * n + y" using assms(1) by simp
  then show ?thesis using less by simp
next
  case equal
  then show ?thesis by simp
next
  case greater
  then have "Suc b * n \<le> a * n" by (intro mult_le_mono1) simp
  then have "b * n + y < a * n + x" using assms(2) by simp
  then show ?thesis using greater by simp
qed

lemma day_seconds:
  assumes "time_ok d"
  shows "minute d * 60 + second d < 3600" "hour d * 3600 + (minute d * 60 + second d) < 86400"
  using assms unfolding time_ok_def by simp_all

lemma split_seconds:
  fixes r :: nat
  assumes "r < 86400"
  shows "r div 3600 < 24" "r mod 3600 div 60 < 60" "r mod 60 < 60"
    "r div 3600 * 3600 + r mod 3600 div 60 * 60 + r mod 60 = r"
proof -
  show "r div 3600 < 24" using assms by (intro less_mult_imp_div_less) simp
  have "r mod 3600 < 60 * 60" by simp
  then show "r mod 3600 div 60 < 60" by (rule less_mult_imp_div_less)
  show "r mod 60 < 60" by simp
  have "r mod 3600 mod 60 = r mod 60" by (simp add: mod_mod_cancel)
  then have A: "r mod 3600 div 60 * 60 + r mod 60 = r mod 3600"
    by (metis div_mult_mod_eq)
  have B: "r div 3600 * 3600 + r mod 3600 = r" by (rule div_mult_mod_eq)
  have "r div 3600 * 3600 + (r mod 3600 div 60 * 60 + r mod 60) = r"
    by (simp only: A B)
  then show "r div 3600 * 3600 + r mod 3600 div 60 * 60 + r mod 60 = r"
    by (simp only: add.assoc)
qed

lemma dt_add_epoch:
  assumes "time_ok d" "dt_add d td = Inr e"
  shows "time_ok e \<and> epoch_seconds e = epoch_seconds d + days td * 86400 + seconds td
         \<and> microsecond e = microsecond d \<and> ordinal e \<le> MAXORDINAL"
proof -
  define s where "s = hour d * 3600 + minute d * 60 + second d + seconds td"
  define r where "r = s mod 86400"
  have e: "e = \<lparr>ordinal = ordinal d + days td + s div 86400, hour = r div 3600,
      minute = (r mod 3600) div 60, second = r mod 60, microsecond = microsecond d\<rparr>"
    and le: "ordinal d + days td + s div 86400 \<le> MAXORDINAL"
    using assms(2) unfolding dt_add_def Let_def s_def r_def by (auto split: if_splits)
  have r: "r < 86400" unfolding r_def by simp
  have t: "time_ok e" unfolding time_ok_def e using split_seconds(1-3)[OF r] by simp
  have "s div 86400 * 86400 + r = s" unfolding r_def by (rule div_mult_mod_eq)
  then have "epoch_seconds e = (ordinal d + days td) * 86400 + s"
    unfolding epoch_seconds_def e using split_seconds(4)[OF r] by (simp add: algebra_simps)
  then show ?thesis using t le unfolding s_def epoch_seconds_def e by (simp add: algebra_simps)
qed

lemma dt_add_ok:
  assumes "time_ok d" "0 < ordinal d" "ordinal d < MAXORDINAL"
    "days td * 86400 + seconds td \<le> 86400"
  shows "\<exists>e. dt_add d td = Inr e"
proof -
  have "hour d * 3600 + minute d * 60 + second d < 86400"
    using day_seconds(2)[OF assms(1)] by simp
  then have "hour d * 3600 + minute d * 60 + second d + seconds td < 2 * 86400"
    using assms(4) by simp
  then have "(hour d * 3600 + minute d * 60 + second d + seconds td) div 86400 < 2"
    by (rule less_mult_imp_div_less)
  moreover have "days td = 0 \<or> (days td = 1 \<and> seconds td = 0)"
    using assms(4) by (cases "days td") auto
  moreover have "days td = 1 \<Longrightarrow> seconds td = 0 \<Longrightarrow>
      (hour d * 3600 + minute d * 60 + second d + seconds td) div 86400 = 0"
    using \<open>hour d * 3600 + minute d * 60 + second d < 86400\<close> by simp
  ultimately have "days td + (hour d * 3600 + minute d * 60 + second d + seconds td) div 86400 \<le> 1"
    by auto
  then show ?thesis using assms(2,3) unfolding dt_add_def Let_def by auto
qed

lemma dt_lt_epoch:
  assumes "time_ok a" "time_ok b"
  shows "dt_lt a b = (epoch_seconds a < epoch_seconds b \<or>
       (epoch_seconds a = epoch_seconds b \<and> microsecond a < microsecond b))"
proof -
  have sa: "second a < 60" "second b < 60" using assms unfolding time_ok_def by simp_all
  note m = radix_less[OF sa, of "minute a" "minute b"]
  note h = radix_less[OF day_seconds(1)[OF assms(1)] day_seconds(1)[OF assms(2)], of "hour a" "hour b"]
  note o = radix_less[OF day_seconds(2)[OF assms(1)] day_seconds(2)[OF assms(2)], of "ordinal a" "ordinal b"]
  have ea: "epoch_seconds a = ordinal a * 86400 + (hour a * 3600 + (minute a * 60 + second a))"
    and eb: "epoch_seconds b = ordinal b * 86400 + (hour b * 3600 + (minute b * 60 + second b))"
    unfolding epoch_seconds_def by simp_all
  have eq: "(epoch_seconds a = epoch_seconds b) =
     (ordinal a = ordinal b \<and> hour a = hour b \<and> minute a = minute b \<and> second a = second b)"
    (is "?L = ?R")
  proof
    assume ?R then show ?L unfolding epoch_seconds_def by simp
  next
    assume L: ?L
    have 1: "\<not> epoch_seconds a < epoch_seconds b" "\<not> epoch_seconds b < epoch_seconds a"
      using L by simp_all
    have o': "ordinal a = ordinal b" using 1 o
      radix_less[OF day_seconds(2)[OF assms(2)] day_seconds(2)[OF assms(1)], of "ordinal b" "ordinal a"]
      unfolding ea eb by auto
    then have 2: "hour a * 3600 + (minute a * 60 + second a) = hour b * 3600 + (minute b * 60 + second b)"
      using L unfolding ea eb by simp
    have h': "hour a = hour b" using 2 h
      radix_less[OF day_seconds(1)[OF assms(2)] day_seconds(1)[OF assms(1)], of "hour b" "hour a"]
      by auto
    then have 3: "minute a * 60 + second a = minute b * 60 + second b" using 2 by simp
    have m': "minute a = minute b" using 3 m radix_less[OF sa(2) sa(1), of "minute b" "minute a"]
      by auto
    then have "second a = second b" using 3 by simp
    with o' h' m' show ?R by simp
  qed
  show ?thesis unfolding eq unfolding ea eb o h m dt_lt_def by blast
qed

lemma to_dt_Inr:
  assumes "to_dt today t = Inr d"
  shows "ordinal d = today \<and> hour d < 24 \<and> minute d < 60 \<and> second d = 0 \<and> microsecond d = 0"
proof -
  from assms obtain h m where hm: "strptime_IMp (strip t) = Inr (h, m)"
    and d: "d = \<lparr>ordinal = today, hour = h, minute = m, second = 0, microsecond = 0\<rparr>"
    unfolding to_dt_def by (auto split: sum.splits)
  with strptime_range[OF hm] show ?thesis by simp
qed

lemma to_dt_Inl:
  assumes "to_dt today t = Inl e"
  shows "\<exists>x. e = ValueError (Does_not_match x) \<or> e = ValueError (Unconverted_remains x)"
  using assms unfolding to_dt_def strptime_IMp_def
  by (auto split: sum.splits list.splits if_splits prod.splits simp: Let_def)

lemma dt_add_Inl: "dt_add d td = Inl e \<Longrightarrow> e = OverflowError"
  unfolding dt_add_def Let_def by (auto split: if_splits)

lemma to_dt_clock12:
  assumes "clock12 t"
  shows "\<exists>h m. strptime_IMp t = Inr (h, m) \<and> h < 24 \<and> m < 60 \<and>
     to_dt today t = Inr \<lparr>ordinal = today, hour = h, minute = m, second = 0, microsecond = 0\<rparr>"
proof -
  from clock12_strptime[OF assms] obtain h m where hm: "strptime_IMp t = Inr (h, m)" by blast
  with strptime_range[OF hm] show ?thesis
    by (simp add: to_dt_def clock12_strip[OF assms])
qed

lemma to_dt_time_ok: "to_dt today t = Inr d \<Longrightarrow> time_ok d"
  using to_dt_Inr[of today t d] unfolding time_ok_def by simp

lemmas char_eval =
  lower_def lower_char_def char_of_def bit_Suc_0_iff isdigit_def isspace_def in_range_def Let_def

lemmas findall_eval = match_time_def match_tail_def

lemmas strptime_eval =
  strptime_IMp_def format_matches_def re_I_def re_M_def re_p_def int_of_digits_def

lemma to_dt_Inr_record:
  assumes "to_dt today t = Inr d"
  shows "\<exists>h m. h < 24 \<and> m < 60 \<and>
     d = \<lparr>ordinal = today, hour = h, minute = m, second = 0, microsecond = 0\<rparr>"
proof -
  from assms obtain h m where hm: "strptime_IMp (strip t) = Inr (h, m)"
    and d: "d = \<lparr>ordinal = today, hour = h, minute = m, second = 0, microsecond = 0\<rparr>"
    unfolding to_dt_def by (auto split: sum.splits)
  with strptime_range[OF hm] show ?thesis by blast
qed

lemma single_token_result:
  assumes "length (findall (lower time_str)) = 1"
    and "clock12 (findall (lower time_str) ! 0)"
    and "0 < ordinal now" and "ordinal now < MAXORDINAL"
  shows "\<exists>h m start_dt end_dt.
           strptime_IMp (findall (lower time_str) ! 0) = Inr (h, m) \<and>
           start_dt = \<lparr>ordinal = ordinal now, hour = h, minute = m, second = 0, microsecond = 0\<rparr> \<and>
           parse_time_range now time_str = Inr (start_dt, end_dt) \<and>
           epoch_seconds end_dt = epoch_seconds start_dt + 3600 \<and>
           microsecond end_dt = 0 \<and> time_ok end_dt"
proof -
  let ?t = "findall (lower time_str) ! 0"
  from to_dt_clock12[OF assms(2), of "ordinal now"] obtain h m where
    hm: "strptime_IMp ?t = Inr (h, m)" and
    s: "to_dt (ordinal now) ?t = Inr \<lparr>ordinal = ordinal now, hour = h, minute = m, second = 0, microsecond = 0\<rparr>"
    by blast
  let ?s = "\<lparr>ordinal = ordinal now, hour = h, minute = m, second = 0, microsecond = 0\<rparr>"
  have ok: "time_ok ?s" using to_dt_time_ok[OF s] .
  have "\<exists>e. dt_add ?s (timedelta_hours 1) = Inr e"
    by (rule dt_add_ok[OF ok]) (use assms(3,4) in \<open>simp_all add: timedelta_hours_def\<close>)
  then obtain e where e: "dt_add ?s (timedelta_hours 1) = Inr e" by blast
  from dt_add_epoch[OF ok e] have
    "time_ok e" "epoch_seconds e = epoch_seconds ?s + 3600" "microsecond e = 0"
    by (simp_all add: timedelta_hours_def)
  moreover have "parse_time_range now time_str = Inr (?s, e)"
    unfolding parse_time_range_def Let_def using assms(1) s e by simp
  ultimately show ?thesis using hm by blast
qed

lemma two_tokens_result:
  assumes "2 \<le> length (findall (lower time_str))"
    and "clock12 (findall (lower time_str) ! 0)"
    and "clock12 (findall (lower time_str) ! 1)"
    and "0 < ordinal now" and "ordinal now < MAXORDINAL"
  shows "\<exists>h1 m1 h2 m2.
           strptime_IMp (findall (lower time_str) ! 0) = Inr (h1, m1) \<and>
           strptime_IMp (findall (lower time_str) ! 1) = Inr (h2, m2) \<and>
           parse_time_range now time_str =
             Inr (\<lparr>ordinal = ordinal now, hour = h1, minute = m1, second = 0, microsecond = 0\<rparr>,
                  \<lparr>ordinal = (if h2 < h1 \<or> (h2 = h1 \<and> m2 \<le> m1) then ordinal now + 1 else ordinal now),
                   hour = h2, minute = m2, second = 0, microsecond = 0\<rparr>)"
proof -
  let ?t0 = "findall (lower time_str) ! 0" and ?t1 = "findall (lower time_str) ! 1"
  from to_dt_clock12[OF assms(2), of "ordinal now"] obtain h1 m1 where
    hm1: "strptime_IMp ?t0 = Inr (h1, m1)" and
    s: "to_dt (ordinal now) ?t0 = Inr \<lparr>ordinal = ordinal now, hour = h1, minute = m1, second = 0, microsecond = 0\<rparr>"
    by blast
  from to_dt_clock12[OF assms(3), of "ordinal now"] obtain h2 m2 where
    hm2: "strptime_IMp ?t1 = Inr (h2, m2)" and r2: "h2 < 24" "m2 < 60" and
    e: "to_dt (ordinal now) ?t1 = Inr \<lparr>ordinal = ordinal now, hour = h2, minute = m2, second = 0, microsecond = 0\<rparr>"
    by blast
  let ?s = "\<lparr>ordinal = ordinal now, hour = h1, minute = m1, second = 0, microsecond = 0\<rparr>"
  let ?e = "\<lparr>ordinal = ordinal now, hour = h2, minute = m2, second = 0, microsecond = 0\<rparr>"
  have le: "dt_le ?e ?s = (h2 < h1 \<or> (h2 = h1 \<and> m2 \<le> m1))"
    unfolding dt_le_def dt_lt_def by auto
  have "h2 * 3600 + m2 * 60 < 86400" using r2 by simp
  then have add: "dt_add ?e (timedelta_days 1) = Inr (?e\<lparr>ordinal := ordinal now + 1\<rparr>)"
    using assms(4,5) r2 unfolding dt_add_def Let_def timedelta_days_def
    by (simp add: div_mult_self1_is_m)
  have n1: "length (findall (lower time_str)) \<noteq> 1" using assms(1) by simp
  have "parse_time_range now time_str =
      Inr (?s, ?e\<lparr>ordinal := (if h2 < h1 \<or> (h2 = h1 \<and> m2 \<le> m1) then ordinal now + 1 else ordinal now)\<rparr>)"
    unfolding parse_time_range_def Let_def using assms(1) n1 s e add le by simp
  then show ?thesis using hm1 hm2 by auto
qed

lemma same_day_order:
  fixes h1 m1 h2 m2 :: nat
  assumes "m1 < 60" "m2 < 60"
  shows "(h2 * 3600 + m2 * 60 \<le> h1 * 3600 + m1 * 60) = (h2 < h1 \<or> (h2 = h1 \<and> m2 \<le> m1))"
  using assms by arith

lemma parse_time_range_Inr:
  assumes "parse_time_range now time_str = Inr (start_dt, end_dt)"
  shows "time_ok start_dt \<and> time_ok end_dt \<and>
         microsecond start_dt = 0 \<and> microsecond end_dt = 0 \<and>
         epoch_seconds start_dt < epoch_seconds end_dt \<and>
         epoch_seconds end_dt \<le> epoch_seconds start_dt + 86400 \<and>
         (length (findall (lower time_str)) = 1 \<longrightarrow>
            epoch_seconds end_dt = epoch_seconds start_dt + 3600)"
proof (cases "length (findall (lower time_str)) = 1")
  case True
  from assms True obtain s e where s: "to_dt (ordinal now) (findall (lower time_str) ! 0) = Inr s"
    and e: "dt_add s (timedelta_hours 1) = Inr e" and r: "start_dt = s" "end_dt = e"
    unfolding parse_time_range_def Let_def by (auto split: sum.splits)
  have ok: "time_ok s" using to_dt_time_ok[OF s] .
  from dt_add_epoch[OF ok e] to_dt_Inr[OF s] ok show ?thesis
    unfolding r by (simp add: timedelta_hours_def)
next
  case False
  with assms have two: "2 \<le> length (findall (lower time_str))"
    unfolding parse_time_range_def Let_def by (auto split: if_splits)
  from assms False two obtain s e where
    s: "to_dt (ordinal now) (findall (lower time_str) ! 0) = Inr s" and
    e: "to_dt (ordinal now) (findall (lower time_str) ! 1) = Inr e" and r: "start_dt = s" and
    c: "(dt_le e s \<and> dt_add e (timedelta_days 1) = Inr end_dt) \<or> (\<not> dt_le e s \<and> end_dt = e)"
    unfolding parse_time_range_def Let_def by (auto split: sum.splits if_splits)
  from to_dt_Inr_record[OF s] obtain h1 m1 where b1: "h1 < 24" "m1 < 60" and
    sr: "s = \<lparr>ordinal = ordinal now, hour = h1, minute = m1, second = 0, microsecond = 0\<rparr>"
    by blast
  from to_dt_Inr_record[OF e] obtain h2 m2 where b2: "h2 < 24" "m2 < 60" and
    er: "e = \<lparr>ordinal = ordinal now, hour = h2, minute = m2, second = 0, microsecond = 0\<rparr>"
    by blast
  have oks: "time_ok s" and oke: "time_ok e" using to_dt_time_ok s e by blast+
  have le: "dt_le e s = (h2 < h1 \<or> (h2 = h1 \<and> m2 \<le> m1))"
    unfolding dt_le_def dt_lt_def sr er by auto
  note ord = same_day_order[OF b1(2) b2(2), of h2 h1]
  have es: "epoch_seconds s = ordinal now * 86400 + (h1 * 3600 + m1 * 60)"
    and ee: "epoch_seconds e = ordinal now * 86400 + (h2 * 3600 + m2 * 60)"
    unfolding epoch_seconds_def sr er by simp_all
  have d1: "h1 * 3600 + m1 * 60 < 86400" and d2: "h2 * 3600 + m2 * 60 < 86400"
    using b1 b2 by simp_all
  from c show ?thesis
  proof
    assume a: "dt_le e s \<and> dt_add e (timedelta_days 1) = Inr end_dt"
    from dt_add_epoch[OF oke conjunct2[OF a]] have
      x: "time_ok end_dt" "epoch_seconds end_dt = epoch_seconds e + 86400" "microsecond end_dt = microsecond e"
      by (simp_all add: timedelta_days_def)
    have "h2 * 3600 + m2 * 60 \<le> h1 * 3600 + m1 * 60" using a le ord by simp
    then have "epoch_seconds s < epoch_seconds e + 86400" "epoch_seconds e \<le> epoch_seconds s"
      unfolding es ee using d1 d2 by simp_all
    then show ?thesis unfolding r using x oks False by (simp add: sr er)
  next
    assume a: "\<not> dt_le e s \<and> end_dt = e"
    have ed: "end_dt = e" using a by simp
    have "h1 * 3600 + m1 * 60 < h2 * 3600 + m2 * 60" using a le ord by auto
    then have "epoch_seconds s < epoch_seconds e" "epoch_seconds e \<le> epoch_seconds s + 86400"
      unfolding es ee using d1 d2 by simp_all
    then show ?thesis unfolding r ed using oks oke False by (simp add: sr er)
  qed
qed

lemma parse_time_range_no_token:
  "findall (lower time_str) = [] \<Longrightarrow>
   parse_time_range now time_str = Inl (ValueError (Cannot_extract_time time_str))"
  unfolding parse_time_range_def Let_def by simp

lemma parse_time_range_token_error:
  assumes "findall (lower time_str) \<noteq> []"
  shows "parse_time_range now time_str \<noteq> Inl (ValueError (Cannot_extract_time l))"
proof
  assume a: "parse_time_range now time_str = Inl (ValueError (Cannot_extract_time l))"
  have len: "length (findall (lower time_str)) = 1 \<or> 2 \<le> length (findall (lower time_str))"
    using assms by (cases "findall (lower time_str)") (auto simp: not_less_eq_eq)
  from a len have "(\<exists>t. to_dt (ordinal now) t = Inl (ValueError (Cannot_extract_time l))) \<or>
      (\<exists>d td. dt_add d td = Inl (ValueError (Cannot_extract_time l)))"
    unfolding parse_time_range_def Let_def by (auto split: sum.splits if_splits)
  then show False using to_dt_Inl dt_add_Inl by fastforce
qed

text \<open>
  Two inputs outside the well-formed tokens and dates of the properties below.  The
  regular expression admits white space before \<^verbatim>\<open>am\<close> or \<^verbatim>\<open>pm\<close>, and \<^verbatim>\<open>t.strip()\<close>
  removes none of it, since it is inside the token: \<^verbatim>\<open>strptime\<close> raises.  On the last
  day a datetime can hold, the hour added to a start after 23:00 leaves the range of
  datetime: the addition raises \<^verbatim>\<open>OverflowError\<close>.
\<close>

lemma token_with_space_rejected:
  "findall (lower ''8:00 am'') = [''8:00 am''] \<and>
   parse_time_range \<lparr>ordinal = 739581, hour = 7, minute = 15, second = 30, microsecond = 250\<rparr>
     ''8:00 am'' = Inl (ValueError (Does_not_match ''8:00 am''))"
proof -
  have f: "findall (lower ''8:00 am'') = [''8:00 am'']" by (simp add: char_eval findall_eval)
  have s: "strptime_IMp ''8:00 am'' = Inl (ValueError (Does_not_match ''8:00 am''))"
    by (simp add: strptime_eval char_eval)
  have st: "strip ''8:00 am'' = ''8:00 am''" by (simp add: strip_def isspace_def)
  show ?thesis by (simp add: parse_time_range_def f to_dt_def st s Let_def)
qed

lemma last_day_overflow:
  "parse_time_range \<lparr>ordinal = 3652059, hour = 7, minute = 15, second = 30, microsecond = 250\<rparr>
     ''11:30pm'' = Inl OverflowError"
proof -
  have f: "findall (lower ''11:30pm'') = [''11:30pm'']" by (simp add: char_eval findall_eval)
  have s: "strptime_IMp ''11:30pm'' = Inr (23, 30)" by (simp add: strptime_eval char_eval)
  have st: "strip ''11:30pm'' = ''11:30pm''" by (simp add: strip_def isspace_def)
  show ?thesis
    by (simp add: parse_time_range_def f to_dt_def st s dt_add_def timedelta_hours_def
        MAXORDINAL_def Let_def)
qed

text \<open>
  C1 (as the code has it).  When exactly one clock token is found, and that token is a
  well-formed 12-hour time (\<open>clock12\<close>: hour 1 to 12, minute 00 to 59, \<^verbatim>\<open>am\<close> or
  \<^verbatim>\<open>pm\<close> directly after the minute), and the current date is a date (its ordinal is
  at least 1) before the last day a datetime can hold, \<open>parse_time_range\<close> returns a pair: the start is the parsed time
  of the token on the current date, with second and microsecond 0, and the end is
  exactly 3600 seconds later.
\<close>

theorem parse_time_range_single:
  assumes "length (findall (lower time_str)) = 1"
    and "clock12 (findall (lower time_str) ! 0)"
    and "0 < ordinal now" and "ordinal now < MAXORDINAL"
  shows "\<exists>h m start_dt end_dt.
           strptime_IMp (findall (lower time_str) ! 0) = Inr (h, m) \<and>
           start_dt = \<lparr>ordinal = ordinal now, hour = h, minute = m, second = 0, microsecond = 0\<rparr> \<and>
           parse_time_range now time_str = Inr (start_dt, end_dt) \<and>
           epoch_seconds end_dt = epoch_seconds start_dt + 3600 \<and>
           microsecond end_dt = 0 \<and> time_ok end_dt"
  using assms by (rule single_token_result)

theorem parse_time_range_single_witness:
  "parse_time_range \<lparr>ordinal = 739581, hour = 7, minute = 15, second = 30, microsecond = 250\<rparr>
     ''8:00am Wednesday, November 26, 2025'' =
   Inr (\<lparr>ordinal = 739581, hour = 8, minute = 0, second = 0, microsecond = 0\<rparr>,
        \<lparr>ordinal = 739581, hour = 9, minute = 0, second = 0, microsecond = 0\<rparr>)"
proof -
  let ?now = "\<lparr>ordinal = 739581, hour = 7, minute = 15, second = 30, microsecond = 250\<rparr>"
  let ?s = "''8:00am Wednesday, November 26, 2025''"
  have f: "findall (lower ?s) = [''8:00am'']" by (simp add: char_eval findall_eval)
  have h1: "length (findall (lower ?s)) = 1" unfolding f by simp
  have h2: "clock12 (findall (lower ?s) ! 0)" unfolding f by (simp add: clock12_def char_eval)
  have h3: "0 < ordinal ?now" by simp
  have h4: "ordinal ?now < MAXORDINAL" by (simp add: MAXORDINAL_def)
  have s: "strptime_IMp ''8:00am'' = Inr (8, 0)" by (simp add: strptime_eval char_eval)
  have st: "strip ''8:00am'' = ''8:00am''" by (simp add: strip_def isspace_def)
  show ?thesis
    using parse_time_range_single [OF h1 h2 h3 h4]
    by (simp add: parse_time_range_def f to_dt_def st s dt_add_def timedelta_hours_def
        MAXORDINAL_def Let_def)
qed

text \<open>
  The claim as it is written fails on a text whose only token the regular expression
  finds but \<^verbatim>\<open>strptime\<close> rejects: \<^verbatim>\<open>"0:00am"\<close> has one token and the call raises.
\<close>

theorem parse_time_range_single_counterexample:
  "length (findall (lower ''0:00am'')) = 1 \<and>
   parse_time_range \<lparr>ordinal = 739581, hour = 7, minute = 15, second = 30, microsecond = 250\<rparr>
     ''0:00am'' = Inl (ValueError (Does_not_match ''0:00am''))"
proof -
  have f: "findall (lower ''0:00am'') = [''0:00am'']" by (simp add: char_eval findall_eval)
  have s: "strptime_IMp ''0:00am'' = Inl (ValueError (Does_not_match ''0:00am''))"
    by (simp add: strptime_eval char_eval)
  have st: "strip ''0:00am'' = ''0:00am''" by (simp add: strip_def isspace_def)
  show ?thesis by (simp add: parse_time_range_def f to_dt_def st s Let_def)
qed

text \<open>
  C2 (as the code has it).  When two or more clock tokens are found, the first two are
  well-formed 12-hour times and the current date is a date before the last
  representable day, the start is the first token's time on the current date and the
  end is the second token's time; the end is on the current date when its clock time
  is later than the start's, and on the next day (same clock time) when it is earlier
  than or equal to the start's.  Nothing is asked of the tokens after the second.
\<close>

theorem parse_time_range_pair:
  assumes "2 \<le> length (findall (lower time_str))"
    and "clock12 (findall (lower time_str) ! 0)"
    and "clock12 (findall (lower time_str) ! 1)"
    and "0 < ordinal now" and "ordinal now < MAXORDINAL"
  shows "\<exists>h1 m1 h2 m2.
           strptime_IMp (findall (lower time_str) ! 0) = Inr (h1, m1) \<and>
           strptime_IMp (findall (lower time_str) ! 1) = Inr (h2, m2) \<and>
           parse_time_range now time_str =
             Inr (\<lparr>ordinal = ordinal now, hour = h1, minute = m1, second = 0, microsecond = 0\<rparr>,
                  \<lparr>ordinal = (if h2 < h1 \<or> (h2 = h1 \<and> m2 \<le> m1) then ordinal now + 1 else ordinal now),
                   hour = h2, minute = m2, second = 0, microsecond = 0\<rparr>)"
  using assms by (rule two_tokens_result)

theorem parse_time_range_pair_witness:
  "parse_time_range \<lparr>ordinal = 739581, hour = 7, minute = 15, second = 30, microsecond = 250\<rparr>
     ''11:00PM - 1:00AM - 77:00am'' =
   Inr (\<lparr>ordinal = 739581, hour = 23, minute = 0, second = 0, microsecond = 0\<rparr>,
        \<lparr>ordinal = 739582, hour = 1, minute = 0, second = 0, microsecond = 0\<rparr>)"
proof -
  let ?now = "\<lparr>ordinal = 739581, hour = 7, minute = 15, second = 30, microsecond = 250\<rparr>"
  let ?s = "''11:00PM - 1:00AM - 77:00am''"
  have f: "findall (lower ?s) = [''11:00pm'', ''1:00am'', ''77:00am'']"
    by (simp add: char_eval findall_eval)
  have h1: "2 \<le> length (findall (lower ?s))" unfolding f by simp
  have h2: "clock12 (findall (lower ?s) ! 0)" unfolding f by (simp add: clock12_def char_eval)
  have h3: "clock12 (findall (lower ?s) ! 1)" unfolding f by (simp add: clock12_def char_eval)
  have h4: "0 < ordinal ?now" by simp
  have h5: "ordinal ?now < MAXORDINAL" by (simp add: MAXORDINAL_def)
  have s1: "strptime_IMp ''11:00pm'' = Inr (23, 0)" by (simp add: strptime_eval char_eval)
  have s2: "strptime_IMp ''1:00am'' = Inr (1, 0)" by (simp add: strptime_eval char_eval)
  show ?thesis
    using parse_time_range_pair [OF h1 h2 h3 h4 h5] by (simp add: f s1 s2)
qed

text \<open>
  The claim as it is written fails on a text with two tokens of which the regular
  expression finds both but \<^verbatim>\<open>strptime\<close> rejects the first: the call raises.
\<close>

theorem parse_time_range_pair_counterexample:
  "length (findall (lower ''13:00pm - 2:00pm'')) = 2 \<and>
   parse_time_range \<lparr>ordinal = 739581, hour = 7, minute = 15, second = 30, microsecond = 250\<rparr>
     ''13:00pm - 2:00pm'' = Inl (ValueError (Does_not_match ''13:00pm''))"
proof -
  have f: "findall (lower ''13:00pm - 2:00pm'') = [''13:00pm'', ''2:00pm'']"
    by (simp add: char_eval findall_eval)
  have s: "strptime_IMp ''13:00pm'' = Inl (ValueError (Does_not_match ''13:00pm''))"
    by (simp add: strptime_eval char_eval)
  have st: "strip ''13:00pm'' = ''13:00pm''" by (simp add: strip_def isspace_def)
  show ?thesis by (simp add: parse_time_range_def f to_dt_def st s Let_def)
qed

text \<open>
  C3 (as the code has it).  \<open>parse_time_range\<close> raises its own error, the one that
  carries the time label, exactly when no clock token is found: with no token it raises
  it, and with a token it never does.  With at least one token the call returns a pair
  whenever the first token, and the second when there is one, is a well-formed 12-hour
  time and the current date is a date before the last representable day.
\<close>

theorem parse_time_range_errors:
  "(findall (lower time_str) = [] \<longrightarrow>
      parse_time_range now time_str = Inl (ValueError (Cannot_extract_time time_str))) \<and>
   (findall (lower time_str) \<noteq> [] \<longrightarrow>
      (\<forall>l. parse_time_range now time_str \<noteq> Inl (ValueError (Cannot_extract_time l)))) \<and>
   (findall (lower time_str) \<noteq> [] \<and> clock12 (findall (lower time_str) ! 0) \<and>
    (2 \<le> length (findall (lower time_str)) \<longrightarrow> clock12 (findall (lower time_str) ! 1)) \<and>
    0 < ordinal now \<and> ordinal now < MAXORDINAL \<longrightarrow>
      (\<exists>r. parse_time_range now time_str = Inr r))"
proof (intro conjI impI allI)
  assume "findall (lower time_str) = []"
  then show "parse_time_range now time_str = Inl (ValueError (Cannot_extract_time time_str))"
    by (rule parse_time_range_no_token)
next
  fix l
  assume "findall (lower time_str) \<noteq> []"
  then show "parse_time_range now time_str \<noteq> Inl (ValueError (Cannot_extract_time l))"
    by (rule parse_time_range_token_error)
next
  assume a: "findall (lower time_str) \<noteq> [] \<and> clock12 (findall (lower time_str) ! 0) \<and>
    (2 \<le> length (findall (lower time_str)) \<longrightarrow> clock12 (findall (lower time_str) ! 1)) \<and>
    0 < ordinal now \<and> ordinal now < MAXORDINAL"
  then have c0: "clock12 (findall (lower time_str) ! 0)"
    and c1: "2 \<le> length (findall (lower time_str)) \<Longrightarrow> clock12 (findall (lower time_str) ! 1)"
    and o: "0 < ordinal now" "ordinal now < MAXORDINAL"
    by simp_all
  from a have "length (findall (lower time_str)) = 1 \<or> 2 \<le> length (findall (lower time_str))"
    by (cases "findall (lower time_str)") (auto simp: not_less_eq_eq)
  then show "\<exists>r. parse_time_range now time_str = Inr r"
  proof
    assume "length (findall (lower time_str)) = 1"
    from single_token_result[OF this c0 o] show ?thesis by blast
  next
    assume l: "2 \<le> length (findall (lower time_str))"
    from two_tokens_result[OF l c0 c1[OF l] o] show ?thesis by blast
  qed
qed

theorem parse_time_range_errors_witness:
  "findall (lower ''no time here'') = [] \<and>
   parse_time_range \<lparr>ordinal = 739581, hour = 7, minute = 15, second = 30, microsecond = 250\<rparr>
     ''no time here'' = Inl (ValueError (Cannot_extract_time ''no time here'')) \<and>
   findall (lower ''1:00pm - 2:00pm'') = [''1:00pm'', ''2:00pm''] \<and>
   (\<exists>r. parse_time_range \<lparr>ordinal = 739581, hour = 7, minute = 15, second = 30, microsecond = 250\<rparr>
     ''1:00pm - 2:00pm'' = Inr r)"
proof -
  let ?now = "\<lparr>ordinal = 739581, hour = 7, minute = 15, second = 30, microsecond = 250\<rparr>"
  have f0: "findall (lower ''no time here'') = []" by (simp add: char_eval findall_eval)
  have f2: "findall (lower ''1:00pm - 2:00pm'') = [''1:00pm'', ''2:00pm'']"
    by (simp add: char_eval findall_eval)
  have c: "clock12 ''1:00pm''" "clock12 ''2:00pm''" by (simp_all add: clock12_def char_eval)
  show ?thesis
    using parse_time_range_errors [of "''no time here''" ?now]
      parse_time_range_errors [of "''1:00pm - 2:00pm''" ?now]
    by (simp add: f0 f2 c MAXORDINAL_def)
qed

text \<open>
  The claim as it is written, that the call succeeds on every text with a token, fails
  on \<^verbatim>\<open>"12:60pm"\<close>: a token is found and \<^verbatim>\<open>strptime\<close> raises.
\<close>

theorem parse_time_range_errors_counterexample:
  "findall (lower ''12:60pm'') = [''12:60pm''] \<and>
   parse_time_range \<lparr>ordinal = 739581, hour = 7, minute = 15, second = 30, microsecond = 250\<rparr>
     ''12:60pm'' = Inl (ValueError (Does_not_match ''12:60pm''))"
proof -
  have f: "findall (lower ''12:60pm'') = [''12:60pm'']" by (simp add: char_eval findall_eval)
  have s: "strptime_IMp ''12:60pm'' = Inl (ValueError (Does_not_match ''12:60pm''))"
    by (simp add: strptime_eval char_eval)
  have st: "strip ''12:60pm'' = ''12:60pm''" by (simp add: strip_def isspace_def)
  show ?thesis by (simp add: parse_time_range_def f to_dt_def st s Let_def)
qed

text \<open>
  C9.  Whenever \<open>parse_time_range\<close> returns a pair, the start is strictly before the
  end, and the end is at most 86400 seconds (24 hours) after the start; with a single
  token the distance is 3600 seconds.
\<close>

theorem parse_time_range_ordered:
  assumes "parse_time_range now time_str = Inr (start_dt, end_dt)"
  shows "dt_lt start_dt end_dt \<and>
         epoch_seconds start_dt < epoch_seconds end_dt \<and>
         epoch_seconds end_dt \<le> epoch_seconds start_dt + 86400 \<and>
         microsecond start_dt = microsecond end_dt \<and>
         (length (findall (lower time_str)) = 1 \<longrightarrow>
            epoch_seconds end_dt = epoch_seconds start_dt + 3600)"
proof -
  note r = parse_time_range_Inr[OF assms]
  from r have "time_ok start_dt" "time_ok end_dt" by simp_all
  from dt_lt_epoch[OF this] r have "dt_lt start_dt end_dt" by simp
  with r show ?thesis by simp
qed

theorem parse_time_range_ordered_witness:
  "parse_time_range \<lparr>ordinal = 739581, hour = 7, minute = 15, second = 30, microsecond = 250\<rparr>
     ''1:00pm - 1:00pm'' =
     Inr (\<lparr>ordinal = 739581, hour = 13, minute = 0, second = 0, microsecond = 0\<rparr>,
          \<lparr>ordinal = 739582, hour = 13, minute = 0, second = 0, microsecond = 0\<rparr>) \<and>
   dt_lt \<lparr>ordinal = 739581, hour = 13, minute = 0, second = 0, microsecond = 0\<rparr>
         \<lparr>ordinal = 739582, hour = 13, minute = 0, second = 0, microsecond = 0\<rparr> \<and>
   epoch_seconds \<lparr>ordinal = 739582, hour = 13, minute = 0, second = 0, microsecond = 0\<rparr> =
   epoch_seconds \<lparr>ordinal = 739581, hour = 13, minute = 0, second = 0, microsecond = 0\<rparr> + 86400"
proof -
  have f: "findall (lower ''1:00pm - 1:00pm'') = [''1:00pm'', ''1:00pm'']"
    by (simp add: char_eval findall_eval)
  have s: "strptime_IMp ''1:00pm'' = Inr (13, 0)" by (simp add: strptime_eval char_eval)
  have st: "strip ''1:00pm'' = ''1:00pm''" by (simp add: strip_def isspace_def)
  have p: "parse_time_range \<lparr>ordinal = 739581, hour = 7, minute = 15, second = 30, microsecond = 250\<rparr>
     ''1:00pm - 1:00pm'' =
     Inr (\<lparr>ordinal = 739581, hour = 13, minute = 0, second = 0, microsecond = 0\<rparr>,
          \<lparr>ordinal = 739582, hour = 13, minute = 0, second = 0, microsecond = 0\<rparr>)"
    by (simp add: parse_time_range_def f to_dt_def st s dt_le_def dt_lt_def dt_add_def
        timedelta_days_def MAXORDINAL_def Let_def)
  show ?thesis
    using parse_time_range_ordered [OF p] p by (simp add: epoch_seconds_def)
qed

section \<open>Properties of the scraper and of the route\<close>

lemma fetch_events_enumerate:
  "fetch_events eid name now clock i acc nodes = Inr out \<Longrightarrow>
     (\<forall>p \<in> set (enumerate i nodes). \<forall>title. snd p = Some title \<and> title \<noteq> [] \<longrightarrow>
          resolved (clock (fst p)) title \<noteq> None) \<and>
     out = acc @ concat (map (kept_entry eid name now clock) (enumerate i nodes))"
proof (induction nodes arbitrary: i acc)
  case Nil
  then show ?case by simp
next
  case (Cons node nodes)
  show ?case
  proof (cases node)
    case None
    with Cons.prems have "fetch_events eid name now clock (Suc i) acc nodes = Inr out" by simp
    from Cons.IH[OF this] None show ?thesis by (simp add: kept_entry_def)
  next
    case (Some title)
    show ?thesis
    proof (cases "title = []")
      case True
      with Some Cons.prems have "fetch_events eid name now clock (Suc i) acc nodes = Inr out"
        by simp
      from Cons.IH[OF this] Some True show ?thesis by (simp add: kept_entry_def)
    next
      case False
      from Cons.prems Some False obtain time_str status_str room start_time end_time where
        pt: "parse_title title = Inr (time_str, status_str, room)" and
        pr: "parse_time_range (clock i) time_str = Inr (start_time, end_time)"
        by (auto split: sum.splits)
      have res: "resolved (clock i) title = Some (time_str, status_str, start_time)"
        by (simp add: resolved_def pt pr)
      show ?thesis
      proof (cases "dt_lt start_time now")
        case True
        with Cons.prems Some False pt pr
        have "fetch_events eid name now clock (Suc i) acc nodes = Inr out" by simp
        from Cons.IH[OF this] Some False res True show ?thesis by (simp add: kept_entry_def)
      next
        case past: False
        with Cons.prems Some False pt pr
        have "fetch_events eid name now clock (Suc i)
                (acc @ [[(''eid'', eid), (''Name'', name), (''time'', time_str),
                         (''status'', status_str)]]) nodes = Inr out" by simp
        from Cons.IH[OF this] Some False res past show ?thesis by (simp add: kept_entry_def)
      qed
    qed
  qed
qed

lemma kept_entry_fields:
  assumes "d \<in> set (kept_entry eid name now clock p)"
  shows "\<exists>title time_str status_str room. snd p = Some title \<and>
           parse_title title = Inr (time_str, status_str, room) \<and>
           d = [(''eid'', eid), (''Name'', name), (''time'', time_str), (''status'', status_str)]"
proof -
  from assms obtain title where t: "snd p = Some title" and ne: "title \<noteq> []"
    unfolding kept_entry_def by (cases "snd p") (auto split: if_splits)
  from assms t ne obtain time_str status_str start_time where
    r: "resolved (clock (fst p)) title = Some (time_str, status_str, start_time)"
    unfolding kept_entry_def by (cases "resolved (clock (fst p)) title") auto
  from assms t ne r have
    d: "d = [(''eid'', eid), (''Name'', name), (''time'', time_str), (''status'', status_str)]"
    unfolding kept_entry_def by (simp split: if_splits)
  from r obtain room where "parse_title title = Inr (time_str, status_str, room)"
    unfolding resolved_def by (auto split: sum.splits prod.splits)
  with t d show ?thesis by blast
qed

lemma fetch_single_eid_Inr:
  assumes "fetch_single_eid page eid now clock = Inr results"
    and "timeline_lane page eid = Some nodes"
  shows "(\<forall>p \<in> set (enumerate 0 nodes). \<forall>title. snd p = Some title \<and> title \<noteq> [] \<longrightarrow>
            resolved (clock (fst p)) title \<noteq> None) \<and>
         results = concat (map (kept_entry eid
            (case datagrid_name page eid of Some t \<Rightarrow> t | None \<Rightarrow> ''Unknown'') now clock)
            (enumerate 0 nodes))"
  using assms fetch_events_enumerate[of eid _ now clock 0 "[]" nodes results]
  unfolding fetch_single_eid_def Let_def by simp

lemma fetch_events_returns:
  assumes "\<forall>p \<in> set (enumerate i nodes). \<forall>title. snd p = Some title \<and> title \<noteq> [] \<longrightarrow>
             resolved (clock (fst p)) title \<noteq> None"
  shows "fetch_events eid name now clock i acc nodes =
           Inr (acc @ concat (map (kept_entry eid name now clock) (enumerate i nodes)))"
  using assms
proof (induction nodes arbitrary: i acc)
  case Nil
  then show ?case by simp
next
  case (Cons node nodes)
  have rest: "\<And>acc'. fetch_events eid name now clock (Suc i) acc' nodes =
      Inr (acc' @ concat (map (kept_entry eid name now clock) (enumerate (Suc i) nodes)))"
    using Cons.prems by (intro Cons.IH) simp
  show ?case
  proof (cases "\<exists>title. node = Some title \<and> title \<noteq> []")
    case False
    then have "fetch_events eid name now clock i acc (node # nodes) =
        fetch_events eid name now clock (Suc i) acc nodes" by (cases node) auto
    moreover have "kept_entry eid name now clock (i, node) = []"
      using False by (cases node) (auto simp: kept_entry_def)
    ultimately show ?thesis by (simp add: rest)
  next
    case True
    then obtain title where t: "node = Some title" "title \<noteq> []" by blast
    with Cons.prems have "resolved (clock i) title \<noteq> None" by simp
    then obtain time_str status_str start_time where
      r: "resolved (clock i) title = Some (time_str, status_str, start_time)"
      by (cases "resolved (clock i) title") auto
    then obtain room end_time where
      pt: "parse_title title = Inr (time_str, status_str, room)" and
      pr: "parse_time_range (clock i) time_str = Inr (start_time, end_time)"
      unfolding resolved_def by (auto split: sum.splits prod.splits)
    have "fetch_events eid name now clock i acc (node # nodes) =
        fetch_events eid name now clock (Suc i)
          (acc @ kept_entry eid name now clock (i, node)) nodes"
      using t pt pr r by (simp add: kept_entry_def)
    then show ?thesis by (simp add: rest)
  qed
qed

lemma fetch_events_Inr_iff:
  "(fetch_events eid name now clock i acc nodes = Inr out) =
     ((\<forall>p \<in> set (enumerate i nodes). \<forall>title. snd p = Some title \<and> title \<noteq> [] \<longrightarrow>
          resolved (clock (fst p)) title \<noteq> None) \<and>
      out = acc @ concat (map (kept_entry eid name now clock) (enumerate i nodes)))"
  using fetch_events_enumerate[of eid name now clock i acc nodes out]
    fetch_events_returns[of i nodes clock eid name now acc]
  by auto

lemma scraped_entries:
  assumes "fetch_single_eid pg eid (scrape_clock ev j) (parse_clock ev j) = Inr d"
  shows "scraped ev pg (j, eid) = d" and "resource_entries ev pg (j, eid) = d"
proof -
  show "scraped ev pg (j, eid) = d" using assms by (simp add: scraped_def)
  show "resource_entries ev pg (j, eid) = d"
  proof (cases "timeline_lane pg eid")
    case None
    with assms show ?thesis by (simp add: resource_entries_def fetch_single_eid_def)
  next
    case (Some nodes)
    from fetch_single_eid_Inr[OF assms Some] Some show ?thesis
      by (simp add: resource_entries_def)
  qed
qed

lemma fetch_eids_Inr_iff:
  "(fetch_eids ev pg j acc eids = Inr out) =
     ((\<forall>p \<in> set (enumerate j eids).
          \<exists>d. fetch_single_eid pg (snd p) (scrape_clock ev (fst p)) (parse_clock ev (fst p)) = Inr d) \<and>
      out = acc @ concat (map (scraped ev pg) (enumerate j eids)))"
proof (induction eids arbitrary: j acc)
  case Nil
  then show ?case by auto
next
  case (Cons eid eids)
  show ?case
  proof (cases "fetch_single_eid pg eid (scrape_clock ev j) (parse_clock ev j)")
    case (Inl e)
    then show ?thesis by simp
  next
    case (Inr d)
    then show ?thesis using Cons.IH[of "Suc j" "acc @ d"] by (simp add: scraped_def)
  qed
qed



lemma run_fetch_success:
  assumes "body (fst (run_fetch ev fl)) = [(''status'', JStr ''success''), (''count'', JInt n)]"
  shows "\<exists>data. fetch_all ev = Inr data \<and> save_outcome ev = Completes \<and> n = length data \<and>
           snd (run_fetch ev fl) = Some (Document data)"
  using assms unfolding run_fetch_def jsonify_def save_json_def
  by (auto split: sum.splits write_outcome.splits)

lemma resource_scrape_upcoming:
  assumes "fetch_single_eid page eid now clock = Inr results"
    and "timeline_lane page eid = Some nodes"
    and "name = (case datagrid_name page eid of Some t \<Rightarrow> t | None \<Rightarrow> ''Unknown'')"
  shows "results = concat (map (kept_entry eid name now clock) (enumerate 0 nodes)) \<and>
         (\<forall>d \<in> set results. \<exists>i title time_str status_str start_time.
           i < length nodes \<and> nodes ! i = Some title \<and>
           resolved (clock i) title = Some (time_str, status_str, start_time) \<and>
           \<not> dt_lt start_time now \<and>
           d = [(''eid'', eid), (''Name'', name), (''time'', time_str), (''status'', status_str)]) \<and>
         (\<forall>i title. i < length nodes \<and> nodes ! i = Some title \<and> title \<noteq> [] \<longrightarrow>
           (\<exists>time_str status_str start_time.
              resolved (clock i) title = Some (time_str, status_str, start_time) \<and>
              (dt_lt start_time now \<longrightarrow> kept_entry eid name now clock (i, nodes ! i) = []) \<and>
              (\<not> dt_lt start_time now \<longrightarrow>
                 [(''eid'', eid), (''Name'', name), (''time'', time_str), (''status'', status_str)]
                   \<in> set results))) \<and>
         (\<forall>d \<in> set results. map fst d = [''eid'', ''Name'', ''time'', ''status''])"
proof -
  note r = fetch_single_eid_Inr[OF assms(1,2), folded assms(3)]
  have eq: "results = concat (map (kept_entry eid name now clock) (enumerate 0 nodes))"
    using r by simp
  have b: "\<forall>d \<in> set results. \<exists>i title time_str status_str start_time.
           i < length nodes \<and> nodes ! i = Some title \<and>
           resolved (clock i) title = Some (time_str, status_str, start_time) \<and>
           \<not> dt_lt start_time now \<and>
           d = [(''eid'', eid), (''Name'', name), (''time'', time_str), (''status'', status_str)]"
  proof
    fix d assume "d \<in> set results"
    then obtain p where p: "p \<in> set (enumerate 0 nodes)"
      and d: "d \<in> set (kept_entry eid name now clock p)"
      unfolding eq by auto
    from p have i: "fst p < length nodes" "nodes ! fst p = snd p"
      by (simp_all add: in_set_enumerate_eq)
    from d obtain title where t: "snd p = Some title" and ne: "title \<noteq> []"
      unfolding kept_entry_def by (cases "snd p") (auto split: if_splits)
    from d t ne obtain time_str status_str start_time where
      rs: "resolved (clock (fst p)) title = Some (time_str, status_str, start_time)"
      unfolding kept_entry_def by (cases "resolved (clock (fst p)) title") auto
    from d t ne rs have "\<not> dt_lt start_time now"
      and "d = [(''eid'', eid), (''Name'', name), (''time'', time_str), (''status'', status_str)]"
      unfolding kept_entry_def by (auto split: if_splits)
    with i t rs show "\<exists>i title time_str status_str start_time.
           i < length nodes \<and> nodes ! i = Some title \<and>
           resolved (clock i) title = Some (time_str, status_str, start_time) \<and>
           \<not> dt_lt start_time now \<and>
           d = [(''eid'', eid), (''Name'', name), (''time'', time_str), (''status'', status_str)]"
      by auto
  qed
  have c: "\<forall>i title. i < length nodes \<and> nodes ! i = Some title \<and> title \<noteq> [] \<longrightarrow>
           (\<exists>time_str status_str start_time.
              resolved (clock i) title = Some (time_str, status_str, start_time) \<and>
              (dt_lt start_time now \<longrightarrow> kept_entry eid name now clock (i, nodes ! i) = []) \<and>
              (\<not> dt_lt start_time now \<longrightarrow>
                 [(''eid'', eid), (''Name'', name), (''time'', time_str), (''status'', status_str)]
                   \<in> set results))"
  proof (intro allI impI)
    fix i title
    assume a: "i < length nodes \<and> nodes ! i = Some title \<and> title \<noteq> []"
    then have mem: "(i, Some title) \<in> set (enumerate 0 nodes)"
      by (simp add: in_set_enumerate_eq)
    with r a have "resolved (clock i) title \<noteq> None" by fastforce
    then obtain time_str status_str start_time where
      rs: "resolved (clock i) title = Some (time_str, status_str, start_time)"
      by (cases "resolved (clock i) title") auto
    have k: "kept_entry eid name now clock (i, Some title) =
        (if dt_lt start_time now then []
         else [[(''eid'', eid), (''Name'', name), (''time'', time_str), (''status'', status_str)]])"
      using a rs by (simp add: kept_entry_def)
    have "set (kept_entry eid name now clock (i, Some title)) \<subseteq> set results"
      unfolding eq using mem by auto
    with k rs a show "\<exists>time_str status_str start_time.
              resolved (clock i) title = Some (time_str, status_str, start_time) \<and>
              (dt_lt start_time now \<longrightarrow> kept_entry eid name now clock (i, nodes ! i) = []) \<and>
              (\<not> dt_lt start_time now \<longrightarrow>
                 [(''eid'', eid), (''Name'', name), (''time'', time_str), (''status'', status_str)]
                   \<in> set results)"
      by auto
  qed
  have f: "\<forall>d \<in> set results. map fst d = [''eid'', ''Name'', ''time'', ''status'']"
    using b by fastforce
  from eq b c f show ?thesis by (intro conjI)
qed

text \<open>Evaluations shared by the examples below.\<close>

lemma example_titles:
  "parse_title ''11:00pm - Available'' = Inr (''11:00pm'', ''Available'', ''Unknown'')"
  "parse_title ''8:00am - Booked'' = Inr (''8:00am'', ''Booked'', ''Unknown'')"
  "parse_title ''11:00pm - A'' = Inr (''11:00pm'', ''A'', ''Unknown'')"
  "parse_title ''closed - Unavailable'' = Inr (''closed'', ''Unavailable'', ''Unknown'')"
  by (simp_all add: parse_title_def str_split_def getitem_def Let_def strip_def isspace_def)

lemma example_ranges:
  "parse_time_range \<lparr>ordinal = 739581, hour = 12, minute = 0, second = 30, microsecond = 0\<rparr>
     ''11:00pm'' =
   Inr (\<lparr>ordinal = 739581, hour = 23, minute = 0, second = 0, microsecond = 0\<rparr>,
        \<lparr>ordinal = 739582, hour = 0, minute = 0, second = 0, microsecond = 0\<rparr>)"
  "parse_time_range \<lparr>ordinal = 739581, hour = 12, minute = 0, second = 30, microsecond = 0\<rparr>
     ''8:00am'' =
   Inr (\<lparr>ordinal = 739581, hour = 8, minute = 0, second = 0, microsecond = 0\<rparr>,
        \<lparr>ordinal = 739581, hour = 9, minute = 0, second = 0, microsecond = 0\<rparr>)"
  "parse_time_range \<lparr>ordinal = 739581, hour = 12, minute = 0, second = 30, microsecond = 0\<rparr>
     ''closed'' = Inl (ValueError (Cannot_extract_time ''closed''))"
proof -
  have f: "findall (lower ''11:00pm'') = [''11:00pm'']" "findall (lower ''8:00am'') = [''8:00am'']"
    "findall (lower ''closed'') = []"
    by (simp_all add: char_eval findall_eval)
  have s: "strptime_IMp ''11:00pm'' = Inr (23, 0)" "strptime_IMp ''8:00am'' = Inr (8, 0)"
    by (simp_all add: strptime_eval char_eval)
  have st: "strip ''11:00pm'' = ''11:00pm''" "strip ''8:00am'' = ''8:00am''"
    by (simp_all add: strip_def isspace_def)
  show "parse_time_range \<lparr>ordinal = 739581, hour = 12, minute = 0, second = 30, microsecond = 0\<rparr>
     ''11:00pm'' =
   Inr (\<lparr>ordinal = 739581, hour = 23, minute = 0, second = 0, microsecond = 0\<rparr>,
        \<lparr>ordinal = 739582, hour = 0, minute = 0, second = 0, microsecond = 0\<rparr>)"
    by (simp add: parse_time_range_def f to_dt_def st s dt_add_def timedelta_hours_def
        MAXORDINAL_def Let_def)
  show "parse_time_range \<lparr>ordinal = 739581, hour = 12, minute = 0, second = 30, microsecond = 0\<rparr>
     ''8:00am'' =
   Inr (\<lparr>ordinal = 739581, hour = 8, minute = 0, second = 0, microsecond = 0\<rparr>,
        \<lparr>ordinal = 739581, hour = 9, minute = 0, second = 0, microsecond = 0\<rparr>)"
    by (simp add: parse_time_range_def f to_dt_def st s dt_add_def timedelta_hours_def
        MAXORDINAL_def Let_def)
  show "parse_time_range \<lparr>ordinal = 739581, hour = 12, minute = 0, second = 30, microsecond = 0\<rparr>
     ''closed'' = Inl (ValueError (Cannot_extract_time ''closed''))"
    by (simp add: parse_time_range_def f Let_def)
qed

lemma example_scrapes:
  "fetch_single_eid
     \<lparr>timeline_lane = (\<lambda>e. if e = ''101''
         then Some [Some ''11:00pm - Available'', None, Some [], Some ''8:00am - Booked'']
         else if e = ''102'' then Some [Some ''11:00pm - A'', Some ''closed - Unavailable'']
         else None),
       datagrid_name = (\<lambda>e. if e = ''101'' then Some ''Room A'' else None)\<rparr>
     ''101''
     \<lparr>ordinal = 739581, hour = 12, minute = 0, second = 0, microsecond = 0\<rparr>
     (\<lambda>i. \<lparr>ordinal = 739581, hour = 12, minute = 0, second = 30, microsecond = 0\<rparr>) =
   Inr [[(''eid'', ''101''), (''Name'', ''Room A''), (''time'', ''11:00pm''),
         (''status'', ''Available'')]]"
  "fetch_single_eid
     \<lparr>timeline_lane = (\<lambda>e. if e = ''101''
         then Some [Some ''11:00pm - Available'', None, Some [], Some ''8:00am - Booked'']
         else if e = ''102'' then Some [Some ''11:00pm - A'', Some ''closed - Unavailable'']
         else None),
       datagrid_name = (\<lambda>e. if e = ''101'' then Some ''Room A'' else None)\<rparr>
     ''102''
     \<lparr>ordinal = 739581, hour = 12, minute = 0, second = 0, microsecond = 0\<rparr>
     (\<lambda>i. \<lparr>ordinal = 739581, hour = 12, minute = 0, second = 30, microsecond = 0\<rparr>) =
   Inl (ValueError (Cannot_extract_time ''closed''))"
  "fetch_single_eid
     \<lparr>timeline_lane = (\<lambda>e. if e = ''101''
         then Some [Some ''11:00pm - Available'', None, Some [], Some ''8:00am - Booked'']
         else if e = ''102'' then Some [Some ''11:00pm - A'', Some ''closed - Unavailable'']
         else None),
       datagrid_name = (\<lambda>e. if e = ''101'' then Some ''Room A'' else None)\<rparr>
     ''999''
     \<lparr>ordinal = 739581, hour = 12, minute = 0, second = 0, microsecond = 0\<rparr>
     (\<lambda>i. \<lparr>ordinal = 739581, hour = 12, minute = 0, second = 30, microsecond = 0\<rparr>) =
   Inr []"
  by (simp_all add: fetch_single_eid_def example_titles example_ranges dt_lt_def Let_def)

lemma example_lines:
  "strip ''999\<newline>'' = ''999''" "strip ''101\<newline>'' = ''101''" "strip ''\<newline>'' = []"
  "strip ''101'' = ''101''" "strip ''102'' = ''102''"
  by (simp_all add: strip_def isspace_def)

text \<open>
  C6 (as the code has it).  When the route answers with the success document, the
  collection written to \<^verbatim>\<open>record.json\<close> is the batch, and the batch is, identifier by
  identifier and node by node in document order, exactly what each node contributes
  (\<open>resource_entries\<close>, \<open>kept_entry\<close>).  Every entry of it comes from a node whose
  resolved start is not before the clock value read when its resource was scraped;
  a node whose start is before that value contributes nothing; every node with a
  non-empty title whose start is not before that value has its entry in the
  collection; and every entry has exactly the four fields \<^verbatim>\<open>eid\<close>, \<^verbatim>\<open>Name\<close>,
  \<^verbatim>\<open>time\<close>, \<^verbatim>\<open>status\<close>.
\<close>

theorem published_collection:
  assumes "eid_file ev = Some lines" and "loaded_page ev = Some pg"
    and "eids = [strip line. line \<leftarrow> lines, strip line \<noteq> []]"
    and "body (fst (run_fetch ev fl)) = [(''status'', JStr ''success''), (''count'', JInt n)]"
  shows "\<exists>data. snd (run_fetch ev fl) = Some (Document data) \<and> n = length data \<and>
           data = concat (map (resource_entries ev pg) (enumerate 0 eids)) \<and>
           (\<forall>d \<in> set data. \<exists>j nodes i title time_str status_str start_time.
              j < length eids \<and> timeline_lane pg (eids ! j) = Some nodes \<and>
              i < length nodes \<and> nodes ! i = Some title \<and>
              resolved (parse_clock ev j i) title = Some (time_str, status_str, start_time) \<and>
              \<not> dt_lt start_time (scrape_clock ev j) \<and>
              d = [(''eid'', eids ! j),
                   (''Name'', case datagrid_name pg (eids ! j) of Some t \<Rightarrow> t | None \<Rightarrow> ''Unknown''),
                   (''time'', time_str), (''status'', status_str)]) \<and>
           (\<forall>j nodes i title.
              j < length eids \<and> timeline_lane pg (eids ! j) = Some nodes \<and>
              i < length nodes \<and> nodes ! i = Some title \<and> title \<noteq> [] \<longrightarrow>
              (\<exists>time_str status_str start_time.
                 resolved (parse_clock ev j i) title = Some (time_str, status_str, start_time) \<and>
                 (dt_lt start_time (scrape_clock ev j) \<longrightarrow>
                    kept_entry (eids ! j)
                      (case datagrid_name pg (eids ! j) of Some t \<Rightarrow> t | None \<Rightarrow> ''Unknown'')
                      (scrape_clock ev j) (parse_clock ev j) (i, nodes ! i) = []) \<and>
                 (\<not> dt_lt start_time (scrape_clock ev j) \<longrightarrow>
                    [(''eid'', eids ! j),
                     (''Name'', case datagrid_name pg (eids ! j) of Some t \<Rightarrow> t | None \<Rightarrow> ''Unknown''),
                     (''time'', time_str), (''status'', status_str)] \<in> set data))) \<and>
           (\<forall>d \<in> set data. map fst d = [''eid'', ''Name'', ''time'', ''status''])"
proof -
  from run_fetch_success[OF assms(4)] obtain data where
    fa: "fetch_all ev = Inr data" and n: "n = length data"
    and fl: "snd (run_fetch ev fl) = Some (Document data)" by blast
  from fa have fe: "fetch_eids ev pg 0 [] eids = Inr data"
    by (simp add: fetch_all_def assms(1,2,3) Let_def)
  from fe have all: "\<forall>p \<in> set (enumerate 0 eids).
      \<exists>d. fetch_single_eid pg (snd p) (scrape_clock ev (fst p)) (parse_clock ev (fst p)) = Inr d"
    and eq: "data = concat (map (scraped ev pg) (enumerate 0 eids))"
    unfolding fetch_eids_Inr_iff by simp_all
  have each: "\<And>j. j < length eids \<Longrightarrow>
      fetch_single_eid pg (eids ! j) (scrape_clock ev j) (parse_clock ev j) = Inr (scraped ev pg (j, eids ! j))"
  proof -
    fix j assume "j < length eids"
    then have "(j, eids ! j) \<in> set (enumerate 0 eids)" by (simp add: in_set_enumerate_eq)
    with all obtain d where
      "fetch_single_eid pg (eids ! j) (scrape_clock ev j) (parse_clock ev j) = Inr d" by fastforce
    then show "fetch_single_eid pg (eids ! j) (scrape_clock ev j) (parse_clock ev j) =
        Inr (scraped ev pg (j, eids ! j))" by (simp add: scraped_def)
  qed
  have sub: "\<And>j. j < length eids \<Longrightarrow> set (scraped ev pg (j, eids ! j)) \<subseteq> set data"
  proof -
    fix j assume "j < length eids"
    then have "(j, eids ! j) \<in> set (enumerate 0 eids)" by (simp add: in_set_enumerate_eq)
    then show "set (scraped ev pg (j, eids ! j)) \<subseteq> set data" unfolding eq by auto
  qed
  have "map (scraped ev pg) (enumerate 0 eids) = map (resource_entries ev pg) (enumerate 0 eids)"
  proof (rule map_cong[OF refl])
    fix p assume p: "p \<in> set (enumerate 0 eids)"
    with all obtain d where "fetch_single_eid pg (snd p) (scrape_clock ev (fst p))
        (parse_clock ev (fst p)) = Inr d" by blast
    from scraped_entries[OF this] show "scraped ev pg p = resource_entries ev pg p" by simp
  qed
  with eq have a: "data = concat (map (resource_entries ev pg) (enumerate 0 eids))" by simp
  have b: "\<forall>d \<in> set data. \<exists>j nodes i title time_str status_str start_time.
              j < length eids \<and> timeline_lane pg (eids ! j) = Some nodes \<and>
              i < length nodes \<and> nodes ! i = Some title \<and>
              resolved (parse_clock ev j i) title = Some (time_str, status_str, start_time) \<and>
              \<not> dt_lt start_time (scrape_clock ev j) \<and>
              d = [(''eid'', eids ! j),
                   (''Name'', case datagrid_name pg (eids ! j) of Some t \<Rightarrow> t | None \<Rightarrow> ''Unknown''),
                   (''time'', time_str), (''status'', status_str)]"
  proof
    fix d assume "d \<in> set data"
    then obtain p where p: "p \<in> set (enumerate 0 eids)" and d: "d \<in> set (scraped ev pg p)"
      unfolding eq by auto
    from p have j: "fst p < length eids" and pj: "p = (fst p, eids ! fst p)"
      by (auto simp: in_set_enumerate_eq prod_eq_iff)
    from d pj have d': "d \<in> set (scraped ev pg (fst p, eids ! fst p))" by simp
    note run = each[OF j]
    from d' run obtain nodes where lane: "timeline_lane pg (eids ! fst p) = Some nodes"
      by (cases "timeline_lane pg (eids ! fst p)") (auto simp: fetch_single_eid_def)
    note R = resource_scrape_upcoming[OF run lane refl]
    from R[THEN conjunct2, THEN conjunct1] d' obtain i title time_str status_str start_time where
      x: "i < length nodes" "nodes ! i = Some title"
         "resolved (parse_clock ev (fst p) i) title = Some (time_str, status_str, start_time)"
         "\<not> dt_lt start_time (scrape_clock ev (fst p))"
         "d = [(''eid'', eids ! fst p),
               (''Name'', case datagrid_name pg (eids ! fst p) of Some t \<Rightarrow> t | None \<Rightarrow> ''Unknown''),
               (''time'', time_str), (''status'', status_str)]"
      by blast
    show "\<exists>j nodes i title time_str status_str start_time.
              j < length eids \<and> timeline_lane pg (eids ! j) = Some nodes \<and>
              i < length nodes \<and> nodes ! i = Some title \<and>
              resolved (parse_clock ev j i) title = Some (time_str, status_str, start_time) \<and>
              \<not> dt_lt start_time (scrape_clock ev j) \<and>
              d = [(''eid'', eids ! j),
                   (''Name'', case datagrid_name pg (eids ! j) of Some t \<Rightarrow> t | None \<Rightarrow> ''Unknown''),
                   (''time'', time_str), (''status'', status_str)]"
      by (intro exI[of _ "fst p"] exI[of _ nodes] exI[of _ i] exI[of _ title]
          exI[of _ time_str] exI[of _ status_str] exI[of _ start_time] conjI j lane x)
  qed
  have c: "\<forall>j nodes i title.
              j < length eids \<and> timeline_lane pg (eids ! j) = Some nodes \<and>
              i < length nodes \<and> nodes ! i = Some title \<and> title \<noteq> [] \<longrightarrow>
              (\<exists>time_str status_str start_time.
                 resolved (parse_clock ev j i) title = Some (time_str, status_str, start_time) \<and>
                 (dt_lt start_time (scrape_clock ev j) \<longrightarrow>
                    kept_entry (eids ! j)
                      (case datagrid_name pg (eids ! j) of Some t \<Rightarrow> t | None \<Rightarrow> ''Unknown'')
                      (scrape_clock ev j) (parse_clock ev j) (i, nodes ! i) = []) \<and>
                 (\<not> dt_lt start_time (scrape_clock ev j) \<longrightarrow>
                    [(''eid'', eids ! j),
                     (''Name'', case datagrid_name pg (eids ! j) of Some t \<Rightarrow> t | None \<Rightarrow> ''Unknown''),
                     (''time'', time_str), (''status'', status_str)] \<in> set data))"
  proof (intro allI impI)
    fix j nodes i title
    assume h: "j < length eids \<and> timeline_lane pg (eids ! j) = Some nodes \<and>
              i < length nodes \<and> nodes ! i = Some title \<and> title \<noteq> []"
    then have j: "j < length eids" and lane: "timeline_lane pg (eids ! j) = Some nodes" by simp_all
    from h have i: "i < length nodes \<and> nodes ! i = Some title \<and> title \<noteq> []" by simp
    note R = resource_scrape_upcoming[OF each[OF j] lane refl]
    from R[THEN conjunct2, THEN conjunct2, THEN conjunct1, rule_format, OF i]
    obtain time_str status_str start_time where
      x: "resolved (parse_clock ev j i) title = Some (time_str, status_str, start_time)"
      and y: "dt_lt start_time (scrape_clock ev j) \<longrightarrow>
                    kept_entry (eids ! j)
                      (case datagrid_name pg (eids ! j) of Some t \<Rightarrow> t | None \<Rightarrow> ''Unknown'')
                      (scrape_clock ev j) (parse_clock ev j) (i, nodes ! i) = []"
      and z: "\<not> dt_lt start_time (scrape_clock ev j) \<longrightarrow>
                    [(''eid'', eids ! j),
                     (''Name'', case datagrid_name pg (eids ! j) of Some t \<Rightarrow> t | None \<Rightarrow> ''Unknown''),
                     (''time'', time_str), (''status'', status_str)] \<in> set (scraped ev pg (j, eids ! j))"
      by blast
    from z sub[OF j] have z': "\<not> dt_lt start_time (scrape_clock ev j) \<longrightarrow>
                    [(''eid'', eids ! j),
                     (''Name'', case datagrid_name pg (eids ! j) of Some t \<Rightarrow> t | None \<Rightarrow> ''Unknown''),
                     (''time'', time_str), (''status'', status_str)] \<in> set data"
      by (simp add: subset_iff)
    show "\<exists>time_str status_str start_time.
                 resolved (parse_clock ev j i) title = Some (time_str, status_str, start_time) \<and>
                 (dt_lt start_time (scrape_clock ev j) \<longrightarrow>
                    kept_entry (eids ! j)
                      (case datagrid_name pg (eids ! j) of Some t \<Rightarrow> t | None \<Rightarrow> ''Unknown'')
                      (scrape_clock ev j) (parse_clock ev j) (i, nodes ! i) = []) \<and>
                 (\<not> dt_lt start_time (scrape_clock ev j) \<longrightarrow>
                    [(''eid'', eids ! j),
                     (''Name'', case datagrid_name pg (eids ! j) of Some t \<Rightarrow> t | None \<Rightarrow> ''Unknown''),
                     (''time'', time_str), (''status'', status_str)] \<in> set data)"
      by (intro exI[of _ time_str] exI[of _ status_str] exI[of _ start_time] conjI x y z')
  qed
  have f: "\<forall>d \<in> set data. map fst d = [''eid'', ''Name'', ''time'', ''status'']"
  proof
    fix d assume "d \<in> set data"
    with b obtain e nm t s where "d = [(''eid'', e), (''Name'', nm), (''time'', t), (''status'', s)]"
      by blast
    then show "map fst d = [''eid'', ''Name'', ''time'', ''status'']" by simp
  qed
  show ?thesis by (intro exI[of _ data] conjI fl n a b c f)
qed

theorem published_collection_witness:
  "run_fetch
     \<lparr>eid_file = Some [''999\<newline>'', ''\<newline>'', ''101''],
      loaded_page = Some
      \<lparr>timeline_lane = (\<lambda>e. if e = ''101''
         then Some [Some ''11:00pm - Available'', None, Some [], Some ''8:00am - Booked'']
         else if e = ''102'' then Some [Some ''11:00pm - A'', Some ''closed - Unavailable'']
         else None),
       datagrid_name = (\<lambda>e. if e = ''101'' then Some ''Room A'' else None)\<rparr>,
      scrape_clock = (\<lambda>j. \<lparr>ordinal = 739581, hour = 12, minute = 0, second = 0, microsecond = 0\<rparr>),
      parse_clock = (\<lambda>j i. \<lparr>ordinal = 739581, hour = 12, minute = 0, second = 30, microsecond = 0\<rparr>),
      save_outcome = Completes\<rparr>
     None =
   (\<lparr>http_status = 200, body = [(''status'', JStr ''success''), (''count'', JInt 1)]\<rparr>,
    Some (Document [[(''eid'', ''101''), (''Name'', ''Room A''), (''time'', ''11:00pm''), (''status'', ''Available'')]]))"
proof -
  let ?pg = "\<lparr>timeline_lane = (\<lambda>e. if e = ''101''
         then Some [Some ''11:00pm - Available'', None, Some [], Some ''8:00am - Booked'']
         else if e = ''102'' then Some [Some ''11:00pm - A'', Some ''closed - Unavailable'']
         else None),
       datagrid_name = (\<lambda>e. if e = ''101'' then Some ''Room A'' else None)\<rparr>"
  let ?ev = "\<lparr>eid_file = Some [''999\<newline>'', ''\<newline>'', ''101''],
      loaded_page = Some
      \<lparr>timeline_lane = (\<lambda>e. if e = ''101''
         then Some [Some ''11:00pm - Available'', None, Some [], Some ''8:00am - Booked'']
         else if e = ''102'' then Some [Some ''11:00pm - A'', Some ''closed - Unavailable'']
         else None),
       datagrid_name = (\<lambda>e. if e = ''101'' then Some ''Room A'' else None)\<rparr>,
      scrape_clock = (\<lambda>j. \<lparr>ordinal = 739581, hour = 12, minute = 0, second = 0, microsecond = 0\<rparr>),
      parse_clock = (\<lambda>j i. \<lparr>ordinal = 739581, hour = 12, minute = 0, second = 30, microsecond = 0\<rparr>),
      save_outcome = Completes\<rparr>"
  have fe: "fetch_eids ?ev ?pg 0 [] [''999'', ''101''] = Inr [[(''eid'', ''101''), (''Name'', ''Room A''), (''time'', ''11:00pm''), (''status'', ''Available'')]]"
    apply (simp only: fetch_eids.simps env.simps example_scrapes)
    apply simp
    done
  have fa: "fetch_all ?ev = Inr [[(''eid'', ''101''), (''Name'', ''Room A''), (''time'', ''11:00pm''), (''status'', ''Available'')]]"
    by (simp add: fetch_all_def example_lines fe del: fetch_eids.simps)
  have run: "run_fetch ?ev None =
   (\<lparr>http_status = 200, body = [(''status'', JStr ''success''), (''count'', JInt 1)]\<rparr>,
    Some (Document [[(''eid'', ''101''), (''Name'', ''Room A''), (''time'', ''11:00pm''), (''status'', ''Available'')]]))"
    by (simp add: run_fetch_def fa save_json_def jsonify_def)
  have h1: "eid_file ?ev = Some [''999\<newline>'', ''\<newline>'', ''101'']" by simp
  have h2: "loaded_page ?ev = Some ?pg" by simp
  have h3: "[''999'', ''101''] = [strip line. line \<leftarrow> [''999\<newline>'', ''\<newline>'', ''101''], strip line \<noteq> []]"
    by (simp add: example_lines)
  have h4: "body (fst (run_fetch ?ev None)) = [(''status'', JStr ''success''), (''count'', JInt 1)]"
    by (simp add: run)
  show ?thesis
    using published_collection [OF h1 h2 h3 h4] run by simp
qed

text \<open>
  The claim as it is written, that every event at or after the instant of the scrape
  is in the published collection, fails when another title of the batch cannot be
  parsed: the node \<^verbatim>\<open>"11:00pm - A"\<close> resolves to a start after \<open>now\<close>, the next node
  of the same cell has no clock token, the batch raises, the route answers with the
  error document and \<^verbatim>\<open>record.json\<close> keeps what it held.
\<close>

theorem published_collection_counterexample:
  "resolved \<lparr>ordinal = 739581, hour = 12, minute = 0, second = 30, microsecond = 0\<rparr> ''11:00pm - A'' =
     Some (''11:00pm'', ''A'', \<lparr>ordinal = 739581, hour = 23, minute = 0, second = 0, microsecond = 0\<rparr>) \<and>
   \<not> dt_lt \<lparr>ordinal = 739581, hour = 23, minute = 0, second = 0, microsecond = 0\<rparr>
       \<lparr>ordinal = 739581, hour = 12, minute = 0, second = 0, microsecond = 0\<rparr> \<and>
   run_fetch
     \<lparr>eid_file = Some [''102''],
      loaded_page = Some
      \<lparr>timeline_lane = (\<lambda>e. if e = ''101''
         then Some [Some ''11:00pm - Available'', None, Some [], Some ''8:00am - Booked'']
         else if e = ''102'' then Some [Some ''11:00pm - A'', Some ''closed - Unavailable'']
         else None),
       datagrid_name = (\<lambda>e. if e = ''101'' then Some ''Room A'' else None)\<rparr>,
      scrape_clock = (\<lambda>j. \<lparr>ordinal = 739581, hour = 12, minute = 0, second = 0, microsecond = 0\<rparr>),
      parse_clock = (\<lambda>j i. \<lparr>ordinal = 739581, hour = 12, minute = 0, second = 30, microsecond = 0\<rparr>),
      save_outcome = Completes\<rparr>
     (Some (Document [])) =
   (\<lparr>http_status = 200,
       body = [(''status'', JStr ''error''), (''message'', JMessage (ValueError (Cannot_extract_time ''closed'')))]\<rparr>,
    Some (Document []))"
proof -
  let ?pg = "\<lparr>timeline_lane = (\<lambda>e. if e = ''101''
         then Some [Some ''11:00pm - Available'', None, Some [], Some ''8:00am - Booked'']
         else if e = ''102'' then Some [Some ''11:00pm - A'', Some ''closed - Unavailable'']
         else None),
       datagrid_name = (\<lambda>e. if e = ''101'' then Some ''Room A'' else None)\<rparr>"
  let ?ev = "\<lparr>eid_file = Some [''102''],
      loaded_page = Some
      \<lparr>timeline_lane = (\<lambda>e. if e = ''101''
         then Some [Some ''11:00pm - Available'', None, Some [], Some ''8:00am - Booked'']
         else if e = ''102'' then Some [Some ''11:00pm - A'', Some ''closed - Unavailable'']
         else None),
       datagrid_name = (\<lambda>e. if e = ''101'' then Some ''Room A'' else None)\<rparr>,
      scrape_clock = (\<lambda>j. \<lparr>ordinal = 739581, hour = 12, minute = 0, second = 0, microsecond = 0\<rparr>),
      parse_clock = (\<lambda>j i. \<lparr>ordinal = 739581, hour = 12, minute = 0, second = 30, microsecond = 0\<rparr>),
      save_outcome = Completes\<rparr>"
  have r: "resolved \<lparr>ordinal = 739581, hour = 12, minute = 0, second = 30, microsecond = 0\<rparr> ''11:00pm - A'' =
     Some (''11:00pm'', ''A'', \<lparr>ordinal = 739581, hour = 23, minute = 0, second = 0, microsecond = 0\<rparr>)"
    by (simp add: resolved_def example_titles example_ranges)
  have fe: "fetch_eids ?ev ?pg 0 [] [''102''] = Inl (ValueError (Cannot_extract_time ''closed''))"
    apply (simp only: fetch_eids.simps env.simps example_scrapes)
    apply simp
    done
  have fa: "fetch_all ?ev = Inl (ValueError (Cannot_extract_time ''closed''))"
    by (simp add: fetch_all_def example_lines fe del: fetch_eids.simps)
  have run: "run_fetch ?ev (Some (Document [])) =
   (\<lparr>http_status = 200,
       body = [(''status'', JStr ''error''), (''message'', JMessage (ValueError (Cannot_extract_time ''closed'')))]\<rparr>,
    Some (Document []))"
    by (simp add: run_fetch_def fa jsonify_def)
  from r run show ?thesis by (simp add: dt_lt_def)
qed

text \<open>
  C10.  The \<^verbatim>\<open>Name\<close> of every entry of the result is the text of the resource's
  name cell in the page, or \<^verbatim>\<open>"Unknown"\<close> when the page has no such cell; the time and
  the status are the first two components of what \<open>parse_title\<close> returns for a title
  of the cell, and the third component, the room name read from the title, appears
  nowhere in the entry.
\<close>

theorem fetch_single_eid_name_from_page:
  assumes "fetch_single_eid page eid now clock = Inr results"
  shows "\<forall>d \<in> set results. \<exists>title time_str status_str room.
           parse_title title = Inr (time_str, status_str, room) \<and>
           d = [(''eid'', eid),
                (''Name'', case datagrid_name page eid of Some t \<Rightarrow> t | None \<Rightarrow> ''Unknown''),
                (''time'', time_str), (''status'', status_str)]"
proof (cases "timeline_lane page eid")
  case None
  with assms show ?thesis by (simp add: fetch_single_eid_def)
next
  case (Some nodes)
  from fetch_single_eid_Inr[OF assms Some] have
    eq: "results = concat (map (kept_entry eid
            (case datagrid_name page eid of Some t \<Rightarrow> t | None \<Rightarrow> ''Unknown'') now clock)
            (enumerate 0 nodes))" by simp
  show ?thesis
  proof
    fix d assume "d \<in> set results"
    then obtain p where "d \<in> set (kept_entry eid
            (case datagrid_name page eid of Some t \<Rightarrow> t | None \<Rightarrow> ''Unknown'') now clock p)"
      unfolding eq by auto
    from kept_entry_fields[OF this] show "\<exists>title time_str status_str room.
           parse_title title = Inr (time_str, status_str, room) \<and>
           d = [(''eid'', eid),
                (''Name'', case datagrid_name page eid of Some t \<Rightarrow> t | None \<Rightarrow> ''Unknown''),
                (''time'', time_str), (''status'', status_str)]" by blast
  qed
qed

theorem fetch_single_eid_name_from_page_witness:
  "parse_title ''8:00pm Wednesday, November 26, 2025 - 2nd Floor - 2122'' =
     Inr (''8:00pm Wednesday, November 26, 2025'', ''2122'', ''2nd Floor'') \<and>
   fetch_single_eid
     \<lparr>timeline_lane = (\<lambda>e. if e = ''77''
        then Some [Some ''8:00pm Wednesday, November 26, 2025 - 2nd Floor - 2122'']
        else None),
      datagrid_name = (\<lambda>e. if e = ''77'' then Some ''Study Room 2122'' else None)\<rparr>
     ''77''
     \<lparr>ordinal = 739581, hour = 12, minute = 0, second = 0, microsecond = 0\<rparr>
     (\<lambda>i. \<lparr>ordinal = 739581, hour = 12, minute = 0, second = 30, microsecond = 0\<rparr>) =
   Inr [[(''eid'', ''77''), (''Name'', ''Study Room 2122''),
         (''time'', ''8:00pm Wednesday, November 26, 2025''), (''status'', ''2122'')]]"
proof -
  let ?pg = "\<lparr>timeline_lane = (\<lambda>e. if e = ''77''
        then Some [Some ''8:00pm Wednesday, November 26, 2025 - 2nd Floor - 2122'']
        else None),
      datagrid_name = (\<lambda>e. if e = ''77'' then Some ''Study Room 2122'' else None)\<rparr>"
  let ?now = "\<lparr>ordinal = 739581, hour = 12, minute = 0, second = 0, microsecond = 0\<rparr>"
  let ?clk = "\<lparr>ordinal = 739581, hour = 12, minute = 0, second = 30, microsecond = 0\<rparr>"
  have t: "parse_title ''8:00pm Wednesday, November 26, 2025 - 2nd Floor - 2122'' =
     Inr (''8:00pm Wednesday, November 26, 2025'', ''2122'', ''2nd Floor'')"
    by (simp add: parse_title_def str_split_def getitem_def slice_to_def Let_def strip_def
        isspace_def)
  have f: "findall (lower ''8:00pm Wednesday, November 26, 2025'') = [''8:00pm'']"
    by (simp add: char_eval findall_eval)
  have s: "strptime_IMp ''8:00pm'' = Inr (20, 0)" by (simp add: strptime_eval char_eval)
  have st: "strip ''8:00pm'' = ''8:00pm''" by (simp add: strip_def isspace_def)
  have p: "parse_time_range ?clk ''8:00pm Wednesday, November 26, 2025'' =
      Inr (\<lparr>ordinal = 739581, hour = 20, minute = 0, second = 0, microsecond = 0\<rparr>,
           \<lparr>ordinal = 739581, hour = 21, minute = 0, second = 0, microsecond = 0\<rparr>)"
    by (simp add: parse_time_range_def f to_dt_def st s dt_add_def timedelta_hours_def
        MAXORDINAL_def Let_def)
  have run: "fetch_single_eid ?pg ''77'' ?now (\<lambda>i. ?clk) =
      Inr [[(''eid'', ''77''), (''Name'', ''Study Room 2122''),
         (''time'', ''8:00pm Wednesday, November 26, 2025''), (''status'', ''2122'')]]"
    by (simp add: fetch_single_eid_def t p dt_lt_def Let_def)
  show ?thesis
    using fetch_single_eid_name_from_page [OF run] run t by simp
qed

text \<open>
  C8.  When the schedule cell of a resource is not in the page, \<open>fetch_single_eid\<close>
  returns the empty list without raising, and the batch goes on: the batch from this
  identifier on is the batch from the next one on, with the results gathered so far;
  it returns exactly when the scrape of every later identifier returns, and then with
  the results gathered so far followed by what those scrapes return, in order.  Inside
  a cell, a node whose title is missing or empty adds nothing: the loop from this node
  on is the loop from the next one on, with the same results; it returns exactly when
  every later node with a title resolves, and then with the results so far followed
  by what the later nodes contribute.
\<close>

theorem missing_cell_and_title_skipped:
  "(timeline_lane page eid = None \<longrightarrow>
      fetch_single_eid page eid now clock = Inr [] \<and>
      fetch_eids ev page j all_results (eid # eids) = fetch_eids ev page (Suc j) all_results eids \<and>
      (\<forall>out. (fetch_eids ev page j all_results (eid # eids) = Inr out) =
         ((\<forall>p \<in> set (enumerate (Suc j) eids).
             \<exists>d. fetch_single_eid page (snd p) (scrape_clock ev (fst p)) (parse_clock ev (fst p)) = Inr d) \<and>
          out = all_results @ concat (map (scraped ev page) (enumerate (Suc j) eids))))) \<and>
   (node = None \<or> node = Some [] \<longrightarrow>
      fetch_events eid name now clock i results (node # nodes) =
      fetch_events eid name now clock (Suc i) results nodes \<and>
      (\<forall>out. (fetch_events eid name now clock i results (node # nodes) = Inr out) =
         ((\<forall>p \<in> set (enumerate (Suc i) nodes). \<forall>title. snd p = Some title \<and> title \<noteq> [] \<longrightarrow>
             resolved (clock (fst p)) title \<noteq> None) \<and>
          out = results @ concat (map (kept_entry eid name now clock) (enumerate (Suc i) nodes)))))"
proof (intro conjI impI allI)
  assume "timeline_lane page eid = None"
  then show a: "fetch_single_eid page eid now clock = Inr []"
    by (simp add: fetch_single_eid_def)
  assume n: "timeline_lane page eid = None"
  then show b: "fetch_eids ev page j all_results (eid # eids) =
      fetch_eids ev page (Suc j) all_results eids"
    by (simp add: fetch_single_eid_def)
  fix out
  show "(fetch_eids ev page j all_results (eid # eids) = Inr out) =
         ((\<forall>p \<in> set (enumerate (Suc j) eids).
             \<exists>d. fetch_single_eid page (snd p) (scrape_clock ev (fst p)) (parse_clock ev (fst p)) = Inr d) \<and>
          out = all_results @ concat (map (scraped ev page) (enumerate (Suc j) eids)))"
    unfolding b by (rule fetch_eids_Inr_iff)
next
  assume s: "node = None \<or> node = Some []"
  then show c: "fetch_events eid name now clock i results (node # nodes) =
      fetch_events eid name now clock (Suc i) results nodes" by auto
  fix out
  show "(fetch_events eid name now clock i results (node # nodes) = Inr out) =
         ((\<forall>p \<in> set (enumerate (Suc i) nodes). \<forall>title. snd p = Some title \<and> title \<noteq> [] \<longrightarrow>
             resolved (clock (fst p)) title \<noteq> None) \<and>
          out = results @ concat (map (kept_entry eid name now clock) (enumerate (Suc i) nodes)))"
    unfolding c by (rule fetch_events_Inr_iff)
qed

theorem missing_cell_and_title_skipped_witness:
  "fetch_single_eid
     \<lparr>timeline_lane = (\<lambda>e. if e = ''101''
         then Some [Some ''11:00pm - Available'', None, Some [], Some ''8:00am - Booked'']
         else if e = ''102'' then Some [Some ''11:00pm - A'', Some ''closed - Unavailable'']
         else None),
       datagrid_name = (\<lambda>e. if e = ''101'' then Some ''Room A'' else None)\<rparr>
     ''999''
     \<lparr>ordinal = 739581, hour = 12, minute = 0, second = 0, microsecond = 0\<rparr>
     (\<lambda>i. \<lparr>ordinal = 739581, hour = 12, minute = 0, second = 30, microsecond = 0\<rparr>) = Inr [] \<and>
   fetch_eids
     \<lparr>eid_file = Some [''999\<newline>'', ''\<newline>'', ''101''],
      loaded_page = Some
      \<lparr>timeline_lane = (\<lambda>e. if e = ''101''
         then Some [Some ''11:00pm - Available'', None, Some [], Some ''8:00am - Booked'']
         else if e = ''102'' then Some [Some ''11:00pm - A'', Some ''closed - Unavailable'']
         else None),
       datagrid_name = (\<lambda>e. if e = ''101'' then Some ''Room A'' else None)\<rparr>,
      scrape_clock = (\<lambda>j. \<lparr>ordinal = 739581, hour = 12, minute = 0, second = 0, microsecond = 0\<rparr>),
      parse_clock = (\<lambda>j i. \<lparr>ordinal = 739581, hour = 12, minute = 0, second = 30, microsecond = 0\<rparr>),
      save_outcome = Completes\<rparr>
     \<lparr>timeline_lane = (\<lambda>e. if e = ''101''
         then Some [Some ''11:00pm - Available'', None, Some [], Some ''8:00am - Booked'']
         else if e = ''102'' then Some [Some ''11:00pm - A'', Some ''closed - Unavailable'']
         else None),
       datagrid_name = (\<lambda>e. if e = ''101'' then Some ''Room A'' else None)\<rparr>
     0 [] [''999'', ''101''] =
     Inr [[(''eid'', ''101''), (''Name'', ''Room A''), (''time'', ''11:00pm''), (''status'', ''Available'')]] \<and>
   fetch_events ''101'' ''Room A''
     \<lparr>ordinal = 739581, hour = 12, minute = 0, second = 0, microsecond = 0\<rparr>
     (\<lambda>i. \<lparr>ordinal = 739581, hour = 12, minute = 0, second = 30, microsecond = 0\<rparr>) 0 []
     [Some [], Some ''11:00pm - Available''] =
     Inr [[(''eid'', ''101''), (''Name'', ''Room A''), (''time'', ''11:00pm''), (''status'', ''Available'')]]"
proof -
  let ?pg = "\<lparr>timeline_lane = (\<lambda>e. if e = ''101''
         then Some [Some ''11:00pm - Available'', None, Some [], Some ''8:00am - Booked'']
         else if e = ''102'' then Some [Some ''11:00pm - A'', Some ''closed - Unavailable'']
         else None),
       datagrid_name = (\<lambda>e. if e = ''101'' then Some ''Room A'' else None)\<rparr>"
  let ?ev = "\<lparr>eid_file = Some [''999\<newline>'', ''\<newline>'', ''101''],
      loaded_page = Some
      \<lparr>timeline_lane = (\<lambda>e. if e = ''101''
         then Some [Some ''11:00pm - Available'', None, Some [], Some ''8:00am - Booked'']
         else if e = ''102'' then Some [Some ''11:00pm - A'', Some ''closed - Unavailable'']
         else None),
       datagrid_name = (\<lambda>e. if e = ''101'' then Some ''Room A'' else None)\<rparr>,
      scrape_clock = (\<lambda>j. \<lparr>ordinal = 739581, hour = 12, minute = 0, second = 0, microsecond = 0\<rparr>),
      parse_clock = (\<lambda>j i. \<lparr>ordinal = 739581, hour = 12, minute = 0, second = 30, microsecond = 0\<rparr>),
      save_outcome = Completes\<rparr>"
  let ?now = "\<lparr>ordinal = 739581, hour = 12, minute = 0, second = 0, microsecond = 0\<rparr>"
  let ?clk = "\<lambda>i::nat. \<lparr>ordinal = 739581, hour = 12, minute = 0, second = 30, microsecond = 0\<rparr>"
  have lane: "timeline_lane ?pg ''999'' = None" by simp
  have one: "fetch_eids ?ev ?pg (Suc 0) [] [''101''] = Inr [[(''eid'', ''101''), (''Name'', ''Room A''), (''time'', ''11:00pm''), (''status'', ''Available'')]]"
    apply (simp only: fetch_eids.simps env.simps example_scrapes)
    apply simp
    done
  have ev1: "fetch_events ''101'' ''Room A'' ?now ?clk (Suc 0) [] [Some ''11:00pm - Available''] =
      Inr [[(''eid'', ''101''), (''Name'', ''Room A''), (''time'', ''11:00pm''), (''status'', ''Available'')]]"
    by (simp add: example_titles example_ranges dt_lt_def)
  note T = missing_cell_and_title_skipped
      [where page = ?pg and eid = "''999''" and now = ?now and clock = ?clk and ev = ?ev
         and j = 0 and all_results = "[]" and eids = "[''101'']" and node = "None"
         and name = "''Room A''" and i = 0 and results = "[]" and nodes = "[]"]
  note U = missing_cell_and_title_skipped
      [where page = ?pg and eid = "''101''" and now = ?now and clock = ?clk and ev = ?ev
         and j = 0 and all_results = "[]" and eids = "[]" and node = "Some []"
         and name = "''Room A''" and i = 0 and results = "[]"
         and nodes = "[Some ''11:00pm - Available'']"]
  from T lane have t1: "fetch_single_eid ?pg ''999'' ?now ?clk = Inr []"
    and t2: "fetch_eids ?ev ?pg 0 [] [''999'', ''101''] = fetch_eids ?ev ?pg (Suc 0) [] [''101'']"
    by blast+
  from U have u: "fetch_events ''101'' ''Room A'' ?now ?clk 0 [] [Some [], Some ''11:00pm - Available''] =
      fetch_events ''101'' ''Room A'' ?now ?clk (Suc 0) [] [Some ''11:00pm - Available'']"
    by blast
  from t1 t2 one u ev1 show ?thesis by (simp only:) 
qed




end
